theory Spec2Isabelle
  imports Complex_Main
begin

section \<open>Tetra Balance: the piece geometry of app.js\<close>

text \<open>
  The development follows \<^verbatim>\<open>src/app.js\<close>.  A cube of a piece is the array
  \<^verbatim>\<open>[x, z, h]\<close>; the height may be left out, and every place that reads a cube
  destructures it as \<^verbatim>\<open>[x, z, h = 0]\<close>.  A coordinate is a JavaScript number that
  holds an integer; it is modelled by that integer, an \<^typ>\<open>int\<close>, and what the program
  computes with it is rounded as the number type rounds.  A height that is left out is
  \<^term>\<open>None\<close>.
\<close>

subsection \<open>Numbers as text, and the occupancy key\<close>

type_synonym coord = "int \<times> int \<times> int option"

type_synonym cube = "int \<times> int \<times> int"

text \<open>The default of the destructuring pattern \<^verbatim>\<open>[x, z, h = 0]\<close>.\<close>

definition height :: "int option \<Rightarrow> int" where
  "height h = (case h of None \<Rightarrow> 0 | Some v \<Rightarrow> v)"

text \<open>
  A number is a double: it has 53 significant bits.  A sum or difference of two numbers is
  the exact result rounded to the nearest double, to the one with the even last bit when
  two are equally near.  \<open>round53\<close> does that for a natural number, \<open>fl_int\<close> for an
  integer; the sums the program forms, a coordinate plus or minus 1 or plus 0.5, are far
  from the largest double.  The exact value of \<^verbatim>\<open>x + 0.5\<close> is half of the odd integer
  \<open>2 x + 1\<close>, and halving commutes with the rounding.
\<close>

fun bitlen :: "nat \<Rightarrow> nat" where
  "bitlen n = (if n = 0 then 0 else Suc (bitlen (n div 2)))"

declare bitlen.simps [simp del]

definition round53 :: "nat \<Rightarrow> nat" where
  "round53 n =
     (let k = bitlen n - 53;
          q = n div 2 ^ k;
          r = n mod 2 ^ k
      in if 2 ^ k < 2 * r \<or> (2 * r = 2 ^ k \<and> odd q) then (q + 1) * 2 ^ k else q * 2 ^ k)"

definition fl_int :: "int \<Rightarrow> int" where
  "fl_int i = (if i < 0 then - int (round53 (nat (- i))) else int (round53 (nat i)))"

definition js_add :: "int \<Rightarrow> int \<Rightarrow> int" where
  "js_add a b = fl_int (a + b)"

definition js_sub :: "int \<Rightarrow> int \<Rightarrow> int" where
  "js_sub a b = fl_int (a - b)"

definition js_add_half :: "int \<Rightarrow> real" where
  "js_add_half a = of_int (fl_int (2 * a + 1)) / 2"

text \<open>
  A template literal turns an integer into its decimal digits, with a leading minus sign
  when it is negative.  (From \<open>2^53\<close> on, where not every integer is a number any more,
  it prints only as many digits as tell the number from its neighbours and fills up with
  zeros; different numbers still give different texts.)
\<close>

definition digit :: "nat \<Rightarrow> char" where
  "digit d = ''0123456789'' ! d"

fun show_nat :: "nat \<Rightarrow> string" where
  "show_nat n = (if n < 10 then [digit n] else show_nat (n div 10) @ [digit (n mod 10)])"

declare show_nat.simps [simp del]

definition show_int :: "int \<Rightarrow> string" where
  "show_int i = (if i < 0 then CHR ''-'' # show_nat (nat (- i)) else show_nat (nat i))"

text \<open>\<^verbatim>\<open>const key = (x, z, h) => `${x},${z},${h}`\<close>\<close>

definition key :: "int \<Rightarrow> int \<Rightarrow> int \<Rightarrow> string" where
  "key x z h = show_int x @ '','' @ show_int z @ '','' @ show_int h"

text \<open>
  \<^verbatim>\<open>new Set(data.map(([x, z, h = 0]) => `${x},${z},${h}`))\<close>, built in
  \<^verbatim>\<open>generateNewPiece\<close> and, through \<^verbatim>\<open>key\<close>, again in \<^verbatim>\<open>addInternalWalls\<close>.
  Only \<^verbatim>\<open>has\<close> is ever asked of the set, so its insertion order is left out.
\<close>

definition occ3D :: "coord list \<Rightarrow> string set" where
  "occ3D data = set (map (\<lambda>(x, z, h). key x z (height h)) data)"

subsection \<open>Exposure of the side faces\<close>

text \<open>
  \<^verbatim>\<open>function exposedFacesFor([x, z, h], occ3D)\<close>: the four tests in the order of the
  source, each pushing its face name.
\<close>

definition exposedFacesFor :: "cube \<Rightarrow> string set \<Rightarrow> string list" where
  "exposedFacesFor c occ =
     (case c of (x, z, h) \<Rightarrow>
        let has = (\<lambda>a b c. key a b c \<in> occ);
            faces = [];
            faces = (if \<not> has x (js_add z 1) h then faces @ [''front''] else faces);
            faces = (if \<not> has x (js_sub z 1) h then faces @ [''back''] else faces);
            faces = (if \<not> has (js_sub x 1) z h then faces @ [''left''] else faces);
            faces = (if \<not> has (js_add x 1) z h then faces @ [''right''] else faces)
        in faces)"

subsection \<open>The scene graph\<close>

text \<open>
  The objects of the rendering library, as far as the program reads and writes them: every
  object has a position, a rotation (Euler angles), two shadow flags and a list of
  children; a mesh also has a geometry and a material.  A fresh object sits at the origin
  with the identity rotation, casts and receives no shadow and has no children.  Lengths
  and angles are real numbers; \<^verbatim>\<open>Math.PI\<close> is \<^term>\<open>pi\<close>.
\<close>

datatype vector3 = Vector3 (vx: real) (vy: real) (vz: real)

datatype euler = Euler (rx: real) (ry: real) (rz: real)

datatype geometry = BoxGeometry real real real | PlaneGeometry real real

datatype side = FrontSide | DoubleSide

datatype material = MeshLambertMaterial (color: nat) (side: side) (transparent: bool) (opacity: real)

datatype kind = Group | Mesh geometry material | AmbientLight nat real | DirectionalLight nat real | Scene

datatype object3d =
  Object3D (kind: kind) (position: vector3) (rotation: euler)
    (castShadow: bool) (receiveShadow: bool) (children: "object3d list")

definition Math_PI :: real where
  "Math_PI = pi"

definition new_Group :: object3d where
  "new_Group = Object3D Group (Vector3 0 0 0) (Euler 0 0 0) False False []"

definition new_Mesh :: "geometry \<Rightarrow> material \<Rightarrow> object3d" where
  "new_Mesh geom mat = Object3D (Mesh geom mat) (Vector3 0 0 0) (Euler 0 0 0) False False []"

text \<open>Assignments to the fields of one object.\<close>

fun position_set :: "real \<Rightarrow> real \<Rightarrow> real \<Rightarrow> object3d \<Rightarrow> object3d" where
  "position_set x y z (Object3D k p r c s ch) = Object3D k (Vector3 x y z) r c s ch"

fun position_x_set :: "real \<Rightarrow> object3d \<Rightarrow> object3d" where
  "position_x_set x (Object3D k p r c s ch) = Object3D k (Vector3 x (vy p) (vz p)) r c s ch"

fun position_y_set :: "real \<Rightarrow> object3d \<Rightarrow> object3d" where
  "position_y_set y (Object3D k p r c s ch) = Object3D k (Vector3 (vx p) y (vz p)) r c s ch"

fun position_z_set :: "real \<Rightarrow> object3d \<Rightarrow> object3d" where
  "position_z_set z (Object3D k p r c s ch) = Object3D k (Vector3 (vx p) (vy p) z) r c s ch"

fun position_sub :: "vector3 \<Rightarrow> object3d \<Rightarrow> object3d" where
  "position_sub v (Object3D k p r c s ch) =
     Object3D k (Vector3 (vx p - vx v) (vy p - vy v) (vz p - vz v)) r c s ch"

fun rotation_x_set :: "real \<Rightarrow> object3d \<Rightarrow> object3d" where
  "rotation_x_set a (Object3D k p r c s ch) = Object3D k p (Euler a (ry r) (rz r)) c s ch"

fun rotation_y_set :: "real \<Rightarrow> object3d \<Rightarrow> object3d" where
  "rotation_y_set a (Object3D k p r c s ch) = Object3D k p (Euler (rx r) a (rz r)) c s ch"

text \<open>\<^verbatim>\<open>m.castShadow = m.receiveShadow = true\<close>\<close>

fun shadows :: "object3d \<Rightarrow> object3d" where
  "shadows (Object3D k p r c s ch) = Object3D k p r True True ch"

text \<open>
  \<^verbatim>\<open>parent.add(child)\<close> for a child that was just built and has no parent yet: it goes
  to the end of the children.
\<close>

fun add :: "object3d \<Rightarrow> object3d \<Rightarrow> object3d" where
  "add (Object3D k p r c s ch) child = Object3D k p r c s (ch @ [child])"

subsection \<open>One block: bars and side planes\<close>

text \<open>The constants \<^verbatim>\<open>size\<close>, \<^verbatim>\<open>t\<close> and \<^verbatim>\<open>EPS\<close> of \<^verbatim>\<open>createBlock\<close>.\<close>

definition size_c :: real where
  "size_c = 1.0"

definition t_c :: real where
  "t_c = 0.05"

definition EPS :: real where
  "EPS = 0.0015"

text \<open>The closure \<^verbatim>\<open>addBar\<close>, with the material and the group it captures as arguments.\<close>

definition addBar :: "material \<Rightarrow> geometry \<Rightarrow> real \<Rightarrow> real \<Rightarrow> real \<Rightarrow> object3d \<Rightarrow> object3d" where
  "addBar barMat geom x y z blockGroup =
     (let m = new_Mesh geom barMat;
          m = position_set x y z m;
          m = shadows m
      in add blockGroup m)"

text \<open>The closure \<^verbatim>\<open>addFace\<close>: four independent tests on the face name, then the flags.\<close>

definition face_panel :: "geometry \<Rightarrow> material \<Rightarrow> string \<Rightarrow> object3d" where
  "face_panel faceGeom faceMat wh =
     (let p = new_Mesh faceGeom faceMat;
          p = (if wh = ''front'' then position_z_set (size_c / 2 + EPS) p else p);
          p = (if wh = ''back''
               then rotation_y_set Math_PI (position_z_set (- size_c / 2 - EPS) p) else p);
          p = (if wh = ''left''
               then rotation_y_set (Math_PI / 2) (position_x_set (- size_c / 2 - EPS) p) else p);
          p = (if wh = ''right''
               then rotation_y_set (- Math_PI / 2) (position_x_set (size_c / 2 + EPS) p) else p);
          p = shadows p
      in p)"

definition addFace :: "geometry \<Rightarrow> material \<Rightarrow> string \<Rightarrow> object3d \<Rightarrow> object3d" where
  "addFace faceGeom faceMat wh blockGroup = add blockGroup (face_panel faceGeom faceMat wh)"

text \<open>The twelve \<^verbatim>\<open>addBar\<close> calls, in the order of the source.\<close>

definition edge_bars :: "material \<Rightarrow> object3d \<Rightarrow> object3d" where
  "edge_bars barMat blockGroup =
     (let horiz = BoxGeometry size_c t_c t_c;
          depth = BoxGeometry t_c t_c size_c;
          vert = BoxGeometry t_c size_c t_c;
          g = blockGroup;
          g = addBar barMat horiz 0 (- size_c / 2) (size_c / 2) g;
          g = addBar barMat horiz 0 (- size_c / 2) (- size_c / 2) g;
          g = addBar barMat depth (size_c / 2) (- size_c / 2) 0 g;
          g = addBar barMat depth (- size_c / 2) (- size_c / 2) 0 g;
          g = addBar barMat horiz 0 (size_c / 2) (size_c / 2) g;
          g = addBar barMat horiz 0 (size_c / 2) (- size_c / 2) g;
          g = addBar barMat depth (size_c / 2) (size_c / 2) 0 g;
          g = addBar barMat depth (- size_c / 2) (size_c / 2) 0 g;
          g = addBar barMat vert (size_c / 2) 0 (size_c / 2) g;
          g = addBar barMat vert (- size_c / 2) 0 (size_c / 2) g;
          g = addBar barMat vert (size_c / 2) 0 (- size_c / 2) g;
          g = addBar barMat vert (- size_c / 2) 0 (- size_c / 2) g
      in g)"

text \<open>
  \<^verbatim>\<open>function createBlock(exposedFaces, material)\<close>.  The \<^verbatim>\<open>forEach\<close> at its end
  calls \<^verbatim>\<open>addFace\<close> for the four side names only.
\<close>

definition createBlock :: "string list \<Rightarrow> material \<Rightarrow> object3d" where
  "createBlock exposedFaces material =
     (let blockGroup = new_Group;
          barMat = material;
          faceMat = MeshLambertMaterial (color material) DoubleSide False 1;
          blockGroup = edge_bars barMat blockGroup;
          faceGeom = PlaneGeometry size_c size_c
      in fold (\<lambda>f g. if f = ''front'' \<or> f = ''back'' \<or> f = ''left'' \<or> f = ''right''
                       then addFace faceGeom faceMat f g else g)
           exposedFaces blockGroup)"

subsection \<open>Partitions between touching cubes\<close>

text \<open>
  One round of the loop of \<^verbatim>\<open>addInternalWalls\<close>: the cube \<^verbatim>\<open>[x, z, h = 0]\<close>, its
  neighbour at \<^verbatim>\<open>x + 1\<close> and its neighbour at \<^verbatim>\<open>z + 1\<close>.
\<close>

definition wall_x :: "material \<Rightarrow> int \<Rightarrow> int \<Rightarrow> int \<Rightarrow> object3d" where
  "wall_x faceMat x z h =
     (let p = new_Mesh (PlaneGeometry 1.0 1.0) faceMat;
          p = rotation_y_set (Math_PI / 2) p;
          p = position_set (js_add_half x) (of_int h) (of_int z) p;
          p = shadows p
      in p)"

definition wall_z :: "material \<Rightarrow> int \<Rightarrow> int \<Rightarrow> int \<Rightarrow> object3d" where
  "wall_z faceMat x z h =
     (let p = new_Mesh (PlaneGeometry 1.0 1.0) faceMat;
          p = position_set (of_int x) (of_int h) (js_add_half z) p;
          p = shadows p
      in p)"

definition wall_step :: "string set \<Rightarrow> material \<Rightarrow> coord \<Rightarrow> object3d \<Rightarrow> object3d" where
  "wall_step occ faceMat c group' =
     (case c of (x, z, ho) \<Rightarrow>
        let h = height ho;
            group' = (if key (js_add x 1) z h \<in> occ
                      then add group' (wall_x faceMat x z h) else group');
            group' = (if key x (js_add z 1) h \<in> occ
                      then add group' (wall_z faceMat x z h) else group')
        in group')"

text \<open>
  \<^verbatim>\<open>function addInternalWalls(pieceCoords, group, colorMat)\<close>.  The source adds to the
  group it is given; the model returns that group with the panels added.
\<close>

definition addInternalWalls :: "coord list \<Rightarrow> object3d \<Rightarrow> material \<Rightarrow> object3d" where
  "addInternalWalls pieceCoords group' colorMat =
     (let occ = occ3D pieceCoords;
          faceMat = MeshLambertMaterial (color colorMat) DoubleSide False 1
      in fold (wall_step occ faceMat) pieceCoords group')"

subsection \<open>The globals and the scene\<close>

text \<open>
  The program keeps \<^verbatim>\<open>scene\<close>, \<^verbatim>\<open>currentPiece\<close> and \<^verbatim>\<open>pivot\<close> in global variables
  and tells objects apart by identity (\<^verbatim>\<open>scene.remove(pivot)\<close>).  An object that a variable
  or another object refers to lives in the store \<open>objects\<close> under a reference; \<open>links r\<close> are
  the children attached to \<open>r\<close> by reference, in order (\<^verbatim>\<open>scene.add(pivot)\<close>,
  \<^verbatim>\<open>pivot.add(currentPiece)\<close>).  The children an object was built with stay part of its
  value.  The record is the state once \<^verbatim>\<open>init\<close> has made the scene; camera and renderer
  are not part of it.
\<close>

type_synonym ref = nat

record state =
  objects :: "ref \<Rightarrow> object3d option"
  links :: "ref \<Rightarrow> ref list"
  next_ref :: ref
  scene :: ref
  currentPiece :: "ref option"
  pivot :: "ref option"
  resetVertical :: bool
  rotationPaused :: bool
  isDragging :: bool
  lastX :: real
  lastY :: real
  dragDeltaY :: real

datatype error = TypeError

text \<open>\<^verbatim>\<open>new ...\<close> for an object that is kept by reference.\<close>

definition new_object :: "object3d \<Rightarrow> state \<Rightarrow> ref \<times> state" where
  "new_object v s =
     (next_ref s,
      s\<lparr>objects := (objects s)(next_ref s \<mapsto> v),
        links := (links s)(next_ref s := []),
        next_ref := Suc (next_ref s)\<rparr>)"

text \<open>
  \<^verbatim>\<open>parent.add(child)\<close> for a child that has no parent yet (every child the program adds
  is new), and \<^verbatim>\<open>parent.remove(child)\<close>, which takes the child out of the parent's
  children when it is among them and does nothing otherwise.
\<close>

definition add_ref :: "ref \<Rightarrow> ref \<Rightarrow> state \<Rightarrow> state" where
  "add_ref parent child s = s\<lparr>links := (links s)(parent := links s parent @ [child])\<rparr>"

definition remove_ref :: "ref \<Rightarrow> ref \<Rightarrow> state \<Rightarrow> state" where
  "remove_ref parent child s = s\<lparr>links := (links s)(parent := remove1 child (links s parent))\<rparr>"

definition update_object :: "ref \<Rightarrow> (object3d \<Rightarrow> object3d) \<Rightarrow> state \<Rightarrow> state" where
  "update_object r f s =
     (case objects s r of None \<Rightarrow> s | Some v \<Rightarrow> s\<lparr>objects := (objects s)(r \<mapsto> f v)\<rparr>)"

subsection \<open>The catalog and the generation of a piece\<close>

definition pieces :: "coord list list" where
  "pieces =
    [[(0, 0, Some 0), (1, 0, Some 0), (2, 0, Some 0), (3, 0, Some 0)],
     [(0, 0, Some 0), (1, 0, Some 0), (2, 0, Some 0), (2, 1, Some 0)],
     [(0, 0, Some 0), (1, 0, Some 0), (2, 0, Some 0), (1, 1, Some 0)],
     [(0, 0, Some 0), (1, 0, Some 0), (1, 1, Some 0), (2, 1, Some 0)],
     [(0, 0, Some 0), (1, 0, Some 0), (0, 1, Some 0), (1, 1, Some 0)],
     [(0, 0, Some 0), (1, 0, Some 0), (1, 1, Some 0), (1, 0, Some 1)],
     [(0, 0, Some 0), (1, 0, Some 0), (1, 1, Some 0), (0, 0, Some 1)]]"

text \<open>
  \<^verbatim>\<open>pieces[Math.floor(Math.random() * pieces.length)]\<close>, for the number \<open>rnd\<close> that
  \<^verbatim>\<open>Math.random()\<close> returned.  An index outside the array reads \<^verbatim>\<open>undefined\<close>.
\<close>

definition pick :: "real \<Rightarrow> coord list option" where
  "pick rnd =
     (let i = \<lfloor>rnd * real (length pieces)\<rfloor>
      in if 0 \<le> i \<and> i < int (length pieces) then Some (pieces ! nat i) else None)"

text \<open>One round of the loop over the cubes in \<^verbatim>\<open>generateNewPiece\<close>.\<close>

definition block_step :: "string set \<Rightarrow> material \<Rightarrow> coord \<Rightarrow> object3d \<Rightarrow> object3d" where
  "block_step occ material c piece =
     (case c of (x, z, ho) \<Rightarrow>
        let h = height ho;
            faces = exposedFacesFor (x, z, h) occ;
            block = createBlock faces material;
            block = position_set (of_int x) (of_int h) (of_int z) block
        in add piece block)"

text \<open>
  \<^verbatim>\<open>function generateNewPiece()\<close> from the chosen piece \<open>data\<close> on;
  \<open>piece_material\<close> is its \<^verbatim>\<open>new THREE.MeshLambertMaterial({ color: 0xe74c3c })\<close>.
  The bounding box is the library's: \<open>boxCenter\<close> stands for
  \<^verbatim>\<open>new THREE.Box3().setFromObject(currentPiece).getCenter(...)\<close>, a function of the group it
  is given.  The new group is filled before anything else can read it, so the model builds
  its value \<open>piece\<close> and stores it under the reference made by \<^verbatim>\<open>new THREE.Group()\<close>.
\<close>

definition piece_material :: material where
  "piece_material = MeshLambertMaterial 0xe74c3c FrontSide False 1"

definition generateFrom :: "(object3d \<Rightarrow> vector3) \<Rightarrow> coord list \<Rightarrow> state \<Rightarrow> state" where
  "generateFrom boxCenter data s =
     (let s = (case currentPiece s of None \<Rightarrow> s | Some old \<Rightarrow> remove_ref (scene s) old s);
          (cp, s) = new_object new_Group s;
          s = s\<lparr>currentPiece := Some cp\<rparr>;
          occ = occ3D data;
          material = piece_material;
          piece = fold (block_step occ material) data new_Group;
          piece = addInternalWalls data piece material;
          center = boxCenter piece;
          piece = position_sub center piece;
          s = s\<lparr>objects := (objects s)(cp \<mapsto> piece)\<rparr>;
          s = (case pivot s of None \<Rightarrow> s | Some old \<Rightarrow> remove_ref (scene s) old s);
          (pv, s) = new_object new_Group s;
          s = s\<lparr>pivot := Some pv\<rparr>;
          s = add_ref pv cp s;
          s = add_ref (scene s) pv s
      in s)"

text \<open>
  The whole function, for the number \<open>rnd\<close> that \<^verbatim>\<open>Math.random()\<close> returned.  Were the
  index outside the catalog, \<^verbatim>\<open>data.map\<close> would throw a \<^verbatim>\<open>TypeError\<close>.
\<close>

definition generateNewPiece :: "(object3d \<Rightarrow> vector3) \<Rightarrow> real \<Rightarrow> state \<Rightarrow> error + state" where
  "generateNewPiece boxCenter rnd s =
     (case pick rnd of None \<Rightarrow> Inl TypeError | Some data \<Rightarrow> Inr (generateFrom boxCenter data s))"

subsection \<open>The scene of \<^verbatim>\<open>init\<close> and the handlers that turn the pivot\<close>

fun receiveShadow_set :: "bool \<Rightarrow> object3d \<Rightarrow> object3d" where
  "receiveShadow_set b (Object3D k p r c s ch) = Object3D k p r c b ch"

fun castShadow_set :: "bool \<Rightarrow> object3d \<Rightarrow> object3d" where
  "castShadow_set b (Object3D k p r c s ch) = Object3D k p r b s ch"

definition new_Object3D :: "kind \<Rightarrow> object3d" where
  "new_Object3D k = Object3D k (Vector3 0 0 0) (Euler 0 0 0) False False []"

text \<open>
  The state in which \<^verbatim>\<open>init\<close> calls \<^verbatim>\<open>generateNewPiece\<close>: the scene holds the two lights
  and the ground.
\<close>

definition init_scene :: state where
  "init_scene =
     (let s = \<lparr>objects = Map.empty, links = (\<lambda>r. []), next_ref = 0, scene = 0,
               currentPiece = None, pivot = None, resetVertical = False,
               rotationPaused = False, isDragging = False, lastX = 0, lastY = 0,
               dragDeltaY = 0\<rparr>;
          (sc, s) = new_object (new_Object3D Scene) s;
          s = s\<lparr>scene := sc\<rparr>;
          (ambient, s) = new_object (new_Object3D (AmbientLight 0xffffff 0.45)) s;
          s = add_ref sc ambient s;
          dir = new_Object3D (DirectionalLight 0xffffff 1.0);
          dir = position_set 10 10 6 dir;
          dir = castShadow_set True dir;
          (dir_ref, s) = new_object dir s;
          s = add_ref sc dir_ref s;
          ground = new_Mesh (PlaneGeometry 20 20) (MeshLambertMaterial 0xfafafa FrontSide True 0.85);
          ground = rotation_x_set (- Math_PI / 2) ground;
          ground = position_y_set (- 2) ground;
          ground = receiveShadow_set True ground;
          (ground_ref, s) = new_object ground s;
          s = add_ref sc ground_ref s
      in s)"

text \<open>The rotation of the pivot about the x axis, as the handlers read it.\<close>

definition pivot_rotation_x :: "state \<Rightarrow> real option" where
  "pivot_rotation_x s =
     (case pivot s of None \<Rightarrow> None
      | Some pv \<Rightarrow> (case objects s pv of None \<Rightarrow> None | Some v \<Rightarrow> Some (rx (rotation v))))"

text \<open>\<^verbatim>\<open>function animate()\<close>: one frame.  Rendering changes nothing in the state.\<close>

definition animate :: "state \<Rightarrow> state" where
  "animate s =
     (case pivot s of None \<Rightarrow> s
      | Some pv \<Rightarrow>
        if \<not> isDragging s \<and> \<not> rotationPaused s then
          let s = (if resetVertical s
                   then
                     let s = update_object pv
                               (\<lambda>v. rotation_x_set (rx (rotation v) + (0 - rx (rotation v)) * 0.18) v) s
                     in if (case pivot_rotation_x s of None \<Rightarrow> False | Some a \<Rightarrow> \<bar>a\<bar> < 0.001)
                        then (update_object pv (rotation_x_set 0) s)\<lparr>resetVertical := False\<rparr>
                        else s
                   else s)
          in update_object pv (\<lambda>v. rotation_y_set (ry (rotation v) + 0.005) v) s
        else s)"

text \<open>The touch handlers; \<open>cx\<close> and \<open>cy\<close> are \<^verbatim>\<open>e.touches[0].clientX\<close> and \<^verbatim>\<open>clientY\<close>.\<close>

definition onTouchStart :: "real \<Rightarrow> real \<Rightarrow> state \<Rightarrow> state" where
  "onTouchStart cx cy s =
     s\<lparr>isDragging := True, lastX := cx, lastY := cy,
       dragDeltaY := (case pivot_rotation_x s of None \<Rightarrow> 0 | Some a \<Rightarrow> a)\<rparr>"

definition onTouchMove :: "real \<Rightarrow> real \<Rightarrow> state \<Rightarrow> state" where
  "onTouchMove cx cy s =
     (if \<not> isDragging s \<or> pivot s = None then s
      else
        case pivot s of None \<Rightarrow> s
        | Some pv \<Rightarrow>
          let dx = cx - lastX s;
              dy = cy - lastY s;
              s = update_object pv (\<lambda>v. rotation_y_set (ry (rotation v) + dx * 0.01) v) s;
              s = update_object pv (\<lambda>v. rotation_x_set (rx (rotation v) + dy * 0.01) v) s
          in s\<lparr>lastX := cx, lastY := cy\<rparr>)"

definition onTouchEnd :: "state \<Rightarrow> state" where
  "onTouchEnd s = s\<lparr>isDragging := False, resetVertical := True\<rparr>"

text \<open>The click on the pause button, as far as the state goes.\<close>

definition pauseClick :: "state \<Rightarrow> state" where
  "pauseClick s = s\<lparr>rotationPaused := (\<not> rotationPaused s)\<rparr>"

text \<open>
  What can happen after \<^verbatim>\<open>init\<close> has made the scene: a call of \<^verbatim>\<open>generateNewPiece\<close>
  (by \<^verbatim>\<open>init\<close> itself or by the button) with the random number it draws, a frame, a touch
  event, a click on pause.
\<close>

datatype event =
  NewPiece real | Frame | TouchStart real real | TouchMove real real | TouchEnd | PauseClick

fun step :: "(object3d \<Rightarrow> vector3) \<Rightarrow> event \<Rightarrow> state \<Rightarrow> error + state" where
  "step bc (NewPiece rnd) s = generateNewPiece bc rnd s"
| "step bc Frame s = Inr (animate s)"
| "step bc (TouchStart cx cy) s = Inr (onTouchStart cx cy s)"
| "step bc (TouchMove cx cy) s = Inr (onTouchMove cx cy s)"
| "step bc TouchEnd s = Inr (onTouchEnd s)"
| "step bc PauseClick s = Inr (pauseClick s)"

fun exec :: "(object3d \<Rightarrow> vector3) \<Rightarrow> event list \<Rightarrow> state \<Rightarrow> error + state" where
  "exec bc [] s = Inr s"
| "exec bc (e # es) s = (case step bc e s of Inl err \<Rightarrow> Inl err | Inr s' \<Rightarrow> exec bc es s')"

text \<open>The references that hang in the scene graph: the scene and everything below it.\<close>

inductive_set attached :: "state \<Rightarrow> ref set" for s :: state where
  root: "scene s \<in> attached s"
| child: "p \<in> attached s \<Longrightarrow> c \<in> set (links s p) \<Longrightarrow> c \<in> attached s"

subsection \<open>The vocabulary of the specification\<close>

text \<open>
  The cubes of a coordinate list: its entries, an entry without height standing for the
  cube at height 0.
\<close>

definition with_height :: "coord \<Rightarrow> cube" where
  "with_height c =
     (case c of (x, z, ho) \<Rightarrow> (case ho of None \<Rightarrow> (x, z, 0) | Some h \<Rightarrow> (x, z, h)))"

definition cubes :: "coord list \<Rightarrow> cube set" where
  "cubes data = set (map with_height data)"

text \<open>
  Two cubes are same-height and axis-adjacent when they differ by exactly 1 in x or in z and
  agree in h and in the other axis.  The unordered pairs of such cubes of a set:
\<close>

definition same_height_adjacent :: "cube \<Rightarrow> cube \<Rightarrow> bool" where
  "same_height_adjacent a b =
     (case a of (x, z, h) \<Rightarrow> case b of (x', z', h') \<Rightarrow>
        h = h' \<and> ((\<bar>x - x'\<bar> = 1 \<and> z = z') \<or> (x = x' \<and> \<bar>z - z'\<bar> = 1)))"

definition adjacent_pairs :: "cube set \<Rightarrow> cube set set" where
  "adjacent_pairs S = (\<lambda>(a, b). {a, b}) ` {(a, b) \<in> S \<times> S. same_height_adjacent a b}"

text \<open>
  Edge bars are the meshes with a box geometry, panels the meshes with a plane geometry.
  A plane geometry lies in the X-Y plane and looks along +z; the rotation of the mesh
  (Euler angles applied in the order X, Y, Z) turns that direction into the normal of the
  panel.
\<close>

definition is_bar :: "object3d \<Rightarrow> bool" where
  "is_bar v = (case kind v of Mesh (BoxGeometry w h d) m \<Rightarrow> True | _ \<Rightarrow> False)"

definition is_panel :: "object3d \<Rightarrow> bool" where
  "is_panel v = (case kind v of Mesh (PlaneGeometry w h) m \<Rightarrow> True | _ \<Rightarrow> False)"

definition normal :: "object3d \<Rightarrow> vector3" where
  "normal v =
     (case rotation v of Euler a b c \<Rightarrow> Vector3 (sin b) (- (sin a * cos b)) (cos a * cos b))"

text \<open>
  The bars of a block by where they run: along the bottom or the top face (a flat box at
  the height of that face) or upright (a box as tall as the cube, at mid height).
\<close>

definition bottom_bar :: "object3d \<Rightarrow> bool" where
  "bottom_bar v =
     (case kind v of Mesh (BoxGeometry w h d) m \<Rightarrow> h = t_c \<and> vy (position v) = - size_c / 2
      | _ \<Rightarrow> False)"

definition top_bar :: "object3d \<Rightarrow> bool" where
  "top_bar v =
     (case kind v of Mesh (BoxGeometry w h d) m \<Rightarrow> h = t_c \<and> vy (position v) = size_c / 2
      | _ \<Rightarrow> False)"

definition vertical_bar :: "object3d \<Rightarrow> bool" where
  "vertical_bar v =
     (case kind v of Mesh (BoxGeometry w h d) m \<Rightarrow> h = size_c \<and> vy (position v) = 0
      | _ \<Rightarrow> False)"

text \<open>
  A top panel would sit above the middle of the block or look upward, a bottom panel would
  sit below it or look downward.
\<close>

definition top_panel :: "object3d \<Rightarrow> bool" where
  "top_panel v = (is_panel v \<and> (0 < vy (position v) \<or> 0 < vy (normal v)))"

definition bottom_panel :: "object3d \<Rightarrow> bool" where
  "bottom_panel v = (is_panel v \<and> (vy (position v) < 0 \<or> vy (normal v) < 0))"

text \<open>The bars every block starts with, and the material of its side planes.\<close>

definition bars :: "material \<Rightarrow> object3d list" where
  "bars barMat = children (edge_bars barMat new_Group)"

definition face_material :: "material \<Rightarrow> material" where
  "face_material material = MeshLambertMaterial (color material) DoubleSide False 1"

definition side_names :: "string list" where
  "side_names = [''front'', ''back'', ''left'', ''right'']"

text \<open>The panels \<^verbatim>\<open>addInternalWalls\<close> emits: what it adds to a group without children.\<close>

definition emitted :: "coord list \<Rightarrow> material \<Rightarrow> object3d list" where
  "emitted pieceCoords colorMat = children (addInternalWalls pieceCoords new_Group colorMat)"

text \<open>
  \<^verbatim>\<open>generateNewPiece\<close> puts the block of the cube \<open>(x, z, h)\<close> at \<open>(x, h, z)\<close>.  The
  partition between two cubes is the unit panel at the midpoint of their blocks, its
  normal along the axis in which they differ.
\<close>

definition cube_position :: "cube \<Rightarrow> vector3" where
  "cube_position a = (case a of (x, z, h) \<Rightarrow> Vector3 (of_int x) (of_int h) (of_int z))"

definition midpoint :: "vector3 \<Rightarrow> vector3 \<Rightarrow> vector3" where
  "midpoint p q = Vector3 ((vx p + vx q) / 2) ((vy p + vy q) / 2) ((vz p + vz q) / 2)"

definition partition_between :: "material \<Rightarrow> cube \<Rightarrow> cube \<Rightarrow> object3d" where
  "partition_between faceMat a b =
     Object3D (Mesh (PlaneGeometry 1 1) faceMat)
       (midpoint (cube_position a) (cube_position b))
       (Euler 0 (if fst a = fst b then 0 else Math_PI / 2) 0) True True []"

text \<open>
  The safe integers, \<^verbatim>\<open>Number.isSafeInteger\<close>: those below \<open>2^53\<close> in magnitude, where
  adding and subtracting 1 is exact.  Adding 0.5 is exact when \<open>2 x + 1\<close> is below
  \<open>2^53\<close> in magnitude.  A cube is safe when its x and its z are.
\<close>

definition safe_integer :: "int \<Rightarrow> bool" where
  "safe_integer n = (\<bar>n\<bar> < 2 ^ 53)"


definition safe_cube :: "cube \<Rightarrow> bool" where
  "safe_cube a = (case a of (x, z, h) \<Rightarrow> safe_integer x \<and> safe_integer z)"

text \<open>The neighbours of a cube one step along x and along z.\<close>

definition plus_x :: "cube \<Rightarrow> cube" where
  "plus_x a = (case a of (x, z, h) \<Rightarrow> (x + 1, z, h))"

definition plus_z :: "cube \<Rightarrow> cube" where
  "plus_z a = (case a of (x, z, h) \<Rightarrow> (x, z + 1, h))"

text \<open>
  Another way to count pairs of cubes, by the places in the list: the pairs of places
  \<open>i < j\<close> whose cubes are same-height and axis-adjacent.
\<close>

definition adjacent_entries :: "coord list \<Rightarrow> (nat \<times> nat) list" where
  "adjacent_entries data =
     filter (\<lambda>(i, j). i < j \<and> same_height_adjacent (with_height (data ! i)) (with_height (data ! j)))
       (List.product [0..<length data] [0..<length data])"

text \<open>The panels one round of the loop emits, by the cubes of the piece.\<close>

definition walls_of :: "cube set \<Rightarrow> material \<Rightarrow> cube \<Rightarrow> object3d list" where
  "walls_of S faceMat a =
     (case a of (x, z, h) \<Rightarrow>
        (if (js_add x 1, z, h) \<in> S then [wall_x faceMat x z h] else []) @
        (if (x, js_add z 1, h) \<in> S then [wall_z faceMat x z h] else []))"

text \<open>
  The panel the loop makes for two adjacent cubes: the wall of the one with the smaller
  coordinate.
\<close>

definition wall_between :: "material \<Rightarrow> cube \<Rightarrow> cube \<Rightarrow> object3d" where
  "wall_between faceMat a b =
     (case a of (x, z, h) \<Rightarrow> case b of (x', z', h') \<Rightarrow>
        if x = x' then wall_z faceMat x (min z z') h else wall_x faceMat (min x x') z h)"

text \<open>
  The bounding box of the rendering library, over this model
  (\<^verbatim>\<open>new THREE.Box3().setFromObject(object)\<close>, then \<^verbatim>\<open>getCenter\<close>): every mesh of the
  subtree contributes the corners of its geometry, a box geometry its eight and a plane
  geometry its four, turned by the rotation (Euler angles in the order X, Y, Z) and moved
  by the position of the mesh and then of every group above it, the object itself
  included.  The box spans the least and the greatest coordinate of these points on each
  axis; its centre is the middle between them, and the origin when there is no point.
\<close>

definition corners :: "kind \<Rightarrow> vector3 list" where
  "corners k =
     (case k of
        Mesh (BoxGeometry w h d) m \<Rightarrow>
          [Vector3 (sx * w / 2) (sy * h / 2) (sz * d / 2). sx \<leftarrow> [- 1, 1], sy \<leftarrow> [- 1, 1], sz \<leftarrow> [- 1, 1]]
      | Mesh (PlaneGeometry w h) m \<Rightarrow>
          [Vector3 (sx * w / 2) (sy * h / 2) 0. sx \<leftarrow> [- 1, 1], sy \<leftarrow> [- 1, 1]]
      | _ \<Rightarrow> [])"

definition rotate :: "euler \<Rightarrow> vector3 \<Rightarrow> vector3" where
  "rotate r q =
     (case r of Euler ax ay az \<Rightarrow> case q of Vector3 x y z \<Rightarrow>
        let a = cos ax; b = sin ax; c = cos ay; d = sin ay; e = cos az; f = sin az
        in Vector3 (c * e * x - c * f * y + d * z)
             ((a * f + b * e * d) * x + (a * e - b * f * d) * y - b * c * z)
             ((b * f - a * e * d) * x + (b * e + a * f * d) * y + a * c * z))"

definition translate :: "vector3 \<Rightarrow> vector3 \<Rightarrow> vector3" where
  "translate p q = Vector3 (vx q + vx p) (vy q + vy p) (vz q + vz p)"

fun points :: "object3d \<Rightarrow> vector3 list" where
  "points (Object3D k p r c s ch) =
     map (\<lambda>q. translate p (rotate r q)) (corners k @ concat (map points ch))"

definition box_centre :: "object3d \<Rightarrow> vector3" where
  "box_centre g =
     (let ps = points g
      in if ps = [] then Vector3 0 0 0
         else Vector3 ((Min (set (map vx ps)) + Max (set (map vx ps))) / 2)
                ((Min (set (map vy ps)) + Max (set (map vy ps))) / 2)
                ((Min (set (map vz ps)) + Max (set (map vz ps))) / 2))"

text \<open>
  Coordinate lists used as examples: two touching cubes, a list that repeats cubes, a
  square, a list with heights written and left out, one cube at \<open>2^53\<close>, and two
  touching cubes at \<open>2^52\<close>.
\<close>

definition two_cubes :: "coord list" where
  "two_cubes = [(- 1, 0, None), (- 2, 0, Some 0)]"

definition dup :: "coord list" where
  "dup = [(0, 0, Some 0), (0, 0, Some 0), (1, 0, Some 0), (1, 0, Some 0)]"

definition square :: "coord list" where
  "square = [(0, 0, Some 0), (1, 0, Some 0), (0, 1, Some 0), (1, 1, Some 0)]"

definition heights :: "coord list" where
  "heights = [(1, 0, Some 1), (- 1, 0, None), (- 1, 0, Some 0), (1, 0, Some 1)]"

definition lone :: "coord list" where
  "lone = [(9007199254740992, 0, Some 0)]"


subsection \<open>Runs of the program\<close>

text \<open>
  \<^verbatim>\<open>Math.random()\<close> returns a number that is at least 0 and less than 1; a run is
  well-formed when every call of \<^verbatim>\<open>generateNewPiece\<close> in it draws such a number.
\<close>

fun valid_event :: "event \<Rightarrow> bool" where
  "valid_event (NewPiece rnd) = (0 \<le> rnd \<and> rnd < 1)"
| "valid_event e = True"

fun is_NewPiece :: "event \<Rightarrow> bool" where
  "is_NewPiece (NewPiece rnd) = True"
| "is_NewPiece e = False"

text \<open>The number of calls of \<^verbatim>\<open>generateNewPiece\<close> in a run.\<close>

definition calls :: "event list \<Rightarrow> nat" where
  "calls evs = length (filter is_NewPiece evs)"

text \<open>The piece and the pivot of a state, and every piece and pivot a run has had.\<close>

definition current :: "state \<Rightarrow> ref set" where
  "current s = set_option (currentPiece s) \<union> set_option (pivot s)"

fun made :: "(object3d \<Rightarrow> vector3) \<Rightarrow> event list \<Rightarrow> state \<Rightarrow> ref set" where
  "made bc [] s = {}"
| "made bc (e # es) s =
     (case step bc e s of Inl err \<Rightarrow> {} | Inr s' \<Rightarrow> current s' \<union> made bc es s')"

text \<open>The assembled piece: the object the variable \<^verbatim>\<open>currentPiece\<close> refers to.\<close>

definition assembled :: "state \<Rightarrow> object3d option" where
  "assembled s = (case currentPiece s of None \<Rightarrow> None | Some cp \<Rightarrow> objects s cp)"

text \<open>The pivot: the object the variable \<^verbatim>\<open>pivot\<close> refers to.\<close>

definition anchor :: "state \<Rightarrow> object3d option" where
  "anchor s = (case pivot s of None \<Rightarrow> None | Some pv \<Rightarrow> objects s pv)"

text \<open>
  What holds of every state the program reaches from \<^verbatim>\<open>init\<close>: the scene is object 0
  and holds the lights 1 and 2 and the ground 3; either no piece has been made yet, or the
  scene holds one more child, the pivot, whose only child is the piece, both made by the
  last call, the pivot right after the piece.  References from \<open>next_ref\<close> on are unused.
\<close>

definition graph_ok :: "state \<Rightarrow> bool" where
  "graph_ok s =
     (scene s = 0 \<and> links s 1 = [] \<and> links s 2 = [] \<and> links s 3 = []
      \<and> dom (objects s) \<subseteq> {..<next_ref s}
      \<and> (case (currentPiece s, pivot s) of
            (None, None) \<Rightarrow> links s 0 = [1, 2, 3] \<and> next_ref s = 4
          | (Some cp, Some pv) \<Rightarrow>
              4 \<le> cp \<and> pv = Suc cp \<and> next_ref s = Suc pv
              \<and> links s 0 = [1, 2, 3, pv] \<and> links s pv = [cp] \<and> links s cp = []
              \<and> pv \<in> dom (objects s) \<and> cp \<in> dom (objects s)
          | _ \<Rightarrow> False))"

text \<open>Two states with the same scene graph: they differ in rotations and flags at most.\<close>

definition same_graph :: "state \<Rightarrow> state \<Rightarrow> bool" where
  "same_graph s s' =
     (scene s' = scene s \<and> links s' = links s \<and> next_ref s' = next_ref s
      \<and> currentPiece s' = currentPiece s \<and> pivot s' = pivot s
      \<and> dom (objects s') = dom (objects s))"

text \<open>
  The group \<^verbatim>\<open>generateNewPiece\<close> assembles from \<open>data\<close>, written without the state:
  the blocks, then the partitions, then the translation by the centre of the bounding box.
\<close>

definition centered_piece :: "(object3d \<Rightarrow> vector3) \<Rightarrow> coord list \<Rightarrow> object3d" where
  "centered_piece boxCenter data =
     (let piece = fold (block_step (occ3D data) piece_material) data new_Group;
          piece = addInternalWalls data piece piece_material
      in position_sub (boxCenter piece) piece)"

text \<open>Runs used as examples.\<close>

definition spin_and_drag :: "event list" where
  "spin_and_drag = [NewPiece 0, Frame, TouchStart 0 0, TouchMove 30 40]"

definition two_calls :: "event list" where
  "two_calls = spin_and_drag @ [NewPiece (1 / 2)]"

section \<open>Properties\<close>

subsection \<open>Keys are faithful\<close>

lemma digit_inj: "a < 10 \<Longrightarrow> b < 10 \<Longrightarrow> digit a = digit b \<Longrightarrow> a = b"
proof -
  assume a: "a < 10" and b: "b < 10" and e: "digit a = digit b"
  have d: "distinct ''0123456789''" by simp
  have l: "length ''0123456789'' = 10" by simp
  from a b e d l show "a = b"
    unfolding digit_def by (metis nth_eq_iff_index_eq)
qed

lemma digit_in: "d < 10 \<Longrightarrow> digit d \<in> set ''0123456789''"
  unfolding digit_def by (rule nth_mem) simp

lemma digit_not_sep: "d < 10 \<Longrightarrow> digit d \<noteq> CHR '','' \<and> digit d \<noteq> CHR ''-''"
  using digit_in [of d] by auto

lemma show_nat_chars: "set (show_nat n) \<subseteq> set ''0123456789''"
proof (induction n rule: show_nat.induct)
  case (1 n)
  show ?case
  proof (cases "n < 10")
    case True
    then show ?thesis using digit_in [of n] by (simp add: show_nat.simps [of n])
  next
    case False
    have "n mod 10 < 10" by simp
    then have "digit (n mod 10) \<in> set ''0123456789''" by (rule digit_in)
    with False "1.IH" show ?thesis by (simp add: show_nat.simps [of n])
  qed
qed

lemma show_nat_nonempty: "show_nat n \<noteq> []"
  by (simp add: show_nat.simps [of n])

lemma show_nat_length: "length (show_nat n) = 1 \<longleftrightarrow> n < 10"
  using show_nat_nonempty [of "n div 10"]
  by (auto simp: show_nat.simps [of n] Suc_le_eq)

lemma show_nat_inj: "show_nat n = show_nat m \<Longrightarrow> n = m"
proof (induction n arbitrary: m rule: show_nat.induct)
  case (1 n)
  show ?case
  proof (cases "n < 10")
    case True
    with "1.prems" have "length (show_nat m) = 1"
      by (metis show_nat_length)
    then have m: "m < 10" using show_nat_length [of m] by simp
    with True "1.prems" have "digit n = digit m"
      by (simp add: show_nat.simps [of n] show_nat.simps [of m])
    with True m show ?thesis by (rule digit_inj)
  next
    case False
    then have "length (show_nat n) \<noteq> 1" using show_nat_length [of n] by simp
    with "1.prems" have m: "\<not> m < 10" using show_nat_length [of m] by simp
    from False m "1.prems"
    have e: "show_nat (n div 10) = show_nat (m div 10)" and d: "digit (n mod 10) = digit (m mod 10)"
      by (simp_all add: show_nat.simps [of n] show_nat.simps [of m])
    from "1.IH" [OF False e] have q: "n div 10 = m div 10" .
    have "n mod 10 = m mod 10" using d by (intro digit_inj) simp_all
    with q show ?thesis by (metis div_mult_mod_eq)
  qed
qed

lemma show_int_inj: "show_int i = show_int j \<Longrightarrow> i = j"
proof -
  assume e: "show_int i = show_int j"
  have nm: "\<And>n m. CHR ''-'' # show_nat n \<noteq> show_nat m"
  proof
    fix n m assume "CHR ''-'' # show_nat n = show_nat m"
    then have "CHR ''-'' \<in> set (show_nat m)" by (metis list.set_intros(1))
    with show_nat_chars [of m] show False by auto
  qed
  show "i = j"
  proof (cases "i < 0"; cases "j < 0")
    assume "i < 0" "j < 0"
    with e have "nat (- i) = nat (- j)" by (simp add: show_int_def show_nat_inj)
    with \<open>i < 0\<close> \<open>j < 0\<close> show ?thesis by simp
  next
    assume "i < 0" "\<not> j < 0"
    with e nm show ?thesis by (simp add: show_int_def)
  next
    assume "\<not> i < 0" "j < 0"
    with e nm [of "nat (- j)" "nat i"] show ?thesis by (simp add: show_int_def)
  next
    assume "\<not> i < 0" "\<not> j < 0"
    with e have "nat i = nat j" by (simp add: show_int_def show_nat_inj)
    with \<open>\<not> i < 0\<close> \<open>\<not> j < 0\<close> show ?thesis by simp
  qed
qed

lemma show_int_no_comma: "CHR '','' \<notin> set (show_int i)"
  using show_nat_chars [of "nat i"] show_nat_chars [of "nat (- i)"]
  by (auto simp: show_int_def)

lemma split_at_sep:
  assumes "c \<notin> set a" and "c \<notin> set a'" and "a @ c # r = a' @ c # r'"
  shows "a = a' \<and> r = r'"
  using assms
proof (induction a arbitrary: a')
  case Nil
  then show ?case by (cases a') auto
next
  case (Cons x a)
  then show ?case by (cases a') auto
qed

lemma key_inj: "key x z h = key x' z' h' \<longleftrightarrow> x = x' \<and> z = z' \<and> h = h'"
proof
  assume e: "key x z h = key x' z' h'"
  then have "show_int x @ CHR '','' # (show_int z @ CHR '','' # show_int h)
           = show_int x' @ CHR '','' # (show_int z' @ CHR '','' # show_int h')"
    by (simp add: key_def)
  from split_at_sep [OF show_int_no_comma show_int_no_comma this]
  have x: "show_int x = show_int x'"
    and r: "show_int z @ CHR '','' # show_int h = show_int z' @ CHR '','' # show_int h'"
    by simp_all
  from split_at_sep [OF show_int_no_comma show_int_no_comma r]
  have "show_int z = show_int z'" and "show_int h = show_int h'" by simp_all
  with x show "x = x' \<and> z = z' \<and> h = h'" by (simp add: show_int_inj)
qed simp


subsection \<open>Rounding\<close>

lemma bitlen_0 [simp]: "bitlen 0 = 0"
  by (simp add: bitlen.simps [of 0])

lemma bitlen_le: "n < 2 ^ m \<Longrightarrow> bitlen n \<le> m"
proof (induction m arbitrary: n)
  case 0
  then show ?case by simp
next
  case (Suc m)
  from Suc.prems have "n div 2 < 2 ^ m" by simp
  from Suc.IH [OF this] show ?case by (simp add: bitlen.simps [of n])
qed

lemma bitlen_gt: "2 ^ m \<le> n \<Longrightarrow> m < bitlen n"
proof (induction m arbitrary: n)
  case 0
  then show ?case by (simp add: bitlen.simps [of n])
next
  case (Suc m)
  from Suc.prems have "2 ^ m \<le> n div 2" by simp
  moreover have "(0::nat) < 2 ^ Suc m" by simp
  with Suc.prems have "n \<noteq> 0" by linarith
  ultimately show ?case using Suc.IH [of "n div 2"] by (simp add: bitlen.simps [of n])
qed

lemma bitlen_eq: "2 ^ m \<le> n \<Longrightarrow> n < 2 ^ Suc m \<Longrightarrow> bitlen n = Suc m"
  using bitlen_le [of n "Suc m"] bitlen_gt [of m n] by simp

lemma round53_small: "n < 2 ^ 53 \<Longrightarrow> round53 n = n"
  using bitlen_le [of n 53] by (simp add: round53_def Let_def)

lemma round53_limit: "round53 (2 ^ 53) = 2 ^ 53"
proof -
  have "bitlen (2 ^ 53) = Suc 53" by (rule bitlen_eq) simp_all
  then show ?thesis by (simp add: round53_def Let_def)
qed

lemma round53_le: "n \<le> 2 ^ 53 \<Longrightarrow> round53 n = n"
  using round53_small [of n] round53_limit by (cases "n = 2 ^ 53") simp_all

lemma fl_int_exact: "\<bar>i\<bar> \<le> 2 ^ 53 \<Longrightarrow> fl_int i = i"
proof -
  assume a: "\<bar>i\<bar> \<le> 2 ^ 53"
  show ?thesis
  proof (cases "i < 0")
    case True
    with a have "nat (- i) \<le> 2 ^ 53" by (simp add: nat_le_iff)
    with True show ?thesis by (simp add: fl_int_def round53_le)
  next
    case False
    with a have "nat i \<le> 2 ^ 53" by (simp add: nat_le_iff)
    with False show ?thesis by (simp add: fl_int_def round53_le)
  qed
qed

lemma js_add_safe:
  assumes "safe_integer x"
  shows "js_add x 1 = x + 1" "js_sub x 1 = x - 1"
  using assms by (simp_all add: js_add_def js_sub_def safe_integer_def fl_int_exact)



lemma round53_tie_53: "round53 9007199254740993 = 9007199254740992"
proof -
  have "bitlen 9007199254740993 = Suc 53" by (rule bitlen_eq) simp_all
  then show ?thesis by (simp add: round53_def Let_def)
qed

lemma round53_54: "round53 18014398509481985 = 18014398509481984"
proof -
  have "bitlen 18014398509481985 = Suc 54" by (rule bitlen_eq) simp_all
  then show ?thesis by (simp add: round53_def Let_def)
qed

lemma js_at_limit:
  "js_add 9007199254740992 1 = 9007199254740992"
  "js_sub 9007199254740992 1 = 9007199254740991"
  "js_add 0 1 = 1" "js_sub 0 1 = - 1"
  "js_add_half 4503599627370496 = 4503599627370496"
  "js_add_half 9007199254740992 = 9007199254740992"
  by (simp_all add: js_add_def js_sub_def js_add_half_def fl_int_def round53_tie_53 round53_54 round53_small)

subsection \<open>The occupancy index\<close>

lemma height_simps [simp]: "height None = 0" "height (Some v) = v"
  by (simp_all add: height_def)

lemma with_height_simps [simp]:
  "with_height (x, z, None) = (x, z, 0)" "with_height (x, z, Some h) = (x, z, h)"
  by (simp_all add: with_height_def)

lemma with_height_height: "with_height (x, z, ho) = (x, z, height ho)"
  by (cases ho) simp_all

lemma occ3D_image: "occ3D data = (\<lambda>(x, z, h). key x z h) ` cubes data"
proof -
  have "(\<lambda>(x, z, h). key x z (height h)) = (\<lambda>(x, z, h). key x z h) \<circ> with_height"
    by (auto simp: fun_eq_iff with_height_height)
  then show ?thesis by (simp add: occ3D_def cubes_def image_comp)
qed

lemma key_inj_on: "inj_on (\<lambda>(x, z, h). key x z h) A"
  by (auto simp: inj_on_def key_inj)

lemma key_mem_occ3D: "key x z h \<in> occ3D data \<longleftrightarrow> (x, z, h) \<in> cubes data"
  by (force simp: occ3D_image key_inj)

lemma cube_mem_raw:
  "(x, z, h) \<in> cubes data \<longleftrightarrow> (x, z, Some h) \<in> set data \<or> (h = 0 \<and> (x, z, None) \<in> set data)"
proof
  assume "(x, z, h) \<in> cubes data"
  then obtain c where c: "c \<in> set data" "with_height c = (x, z, h)"
    by (auto simp: cubes_def)
  obtain x' z' ho where "c = (x', z', ho)" by (cases c)
  with c show "(x, z, Some h) \<in> set data \<or> (h = 0 \<and> (x, z, None) \<in> set data)"
    by (cases ho) auto
next
  assume "(x, z, Some h) \<in> set data \<or> (h = 0 \<and> (x, z, None) \<in> set data)"
  then show "(x, z, h) \<in> cubes data"
  proof
    assume "(x, z, Some h) \<in> set data"
    then have "with_height (x, z, Some h) \<in> with_height ` set data" by (rule imageI)
    then show ?thesis by (simp add: cubes_def)
  next
    assume "h = 0 \<and> (x, z, None) \<in> set data"
    then have "with_height (x, z, None) \<in> with_height ` set data" and "h = 0"
      by (simp_all only: imageI)
    then show ?thesis by (simp add: cubes_def)
  qed
qed

text \<open>
  C9.  The occupancy index built from a coordinate list has exactly one entry per distinct
  cube of the list and nothing else: the key is a bijection from the cubes to the index, so
  both have the same number of elements.  Asking the index for \<open>(x, z, h)\<close> is true
  exactly when the list holds \<open>[x, z, h]\<close>, or \<open>h\<close> is 0 and the list holds \<open>[x, z]\<close>
  without height: a written height is kept, a height left out is keyed as 0.  A repeated
  cube adds nothing.
\<close>

theorem occ3D_one_entry_per_cube:
  "bij_betw (\<lambda>(x, z, h). key x z h) (cubes data) (occ3D data)
   \<and> card (occ3D data) = card (cubes data)
   \<and> (key x z h \<in> occ3D data \<longleftrightarrow>
        (x, z, Some h) \<in> set data \<or> (h = 0 \<and> (x, z, None) \<in> set data))
   \<and> (key x z h \<in> occ3D data \<longleftrightarrow> (x, z, h) \<in> set (map with_height data))
   \<and> with_height (x, z, None) = (x, z, 0)
   \<and> with_height (x, z, Some h) = (x, z, h)
   \<and> key x z 0 \<in> occ3D ((x, z, None) # data)
   \<and> key x z h \<in> occ3D ((x, z, Some h) # data)
   \<and> occ3D [(x, z, Some h)] = {key x z h}
   \<and> occ3D [(x, z, None)] = {key x z 0}
   \<and> occ3D (c # c # data) = occ3D (c # data)"
proof -
  have b: "bij_betw (\<lambda>(x, z, h). key x z h) (cubes data) (occ3D data)"
    unfolding bij_betw_def using key_inj_on occ3D_image by auto
  have c: "card (occ3D data) = card (cubes data)"
    using bij_betw_same_card [OF b] by simp
  have r: "key x z h \<in> occ3D data \<longleftrightarrow>
        (x, z, Some h) \<in> set data \<or> (h = 0 \<and> (x, z, None) \<in> set data)"
    by (simp only: key_mem_occ3D cube_mem_raw)
  have m: "key x z h \<in> occ3D data \<longleftrightarrow> (x, z, h) \<in> set (map with_height data)"
    using key_mem_occ3D [of x z h data] by (simp add: cubes_def)
  have n: "key x z 0 \<in> occ3D ((x, z, None) # data)"
    "key x z h \<in> occ3D ((x, z, Some h) # data)"
    "occ3D [(x, z, Some h)] = {key x z h}"
    "occ3D [(x, z, None)] = {key x z 0}"
    by (simp_all add: occ3D_def)
  have d: "occ3D (c # c # data) = occ3D (c # data)"
    by (simp add: occ3D_def)
  from b c r m n d show ?thesis by simp
qed

theorem occ3D_one_entry_per_cube_witness:
  "bij_betw (\<lambda>(x, z, h). key x z h) (cubes heights) (occ3D heights)
   \<and> card (occ3D heights) = card (cubes heights)
   \<and> (key 1 0 1 \<in> occ3D heights \<longleftrightarrow>
        (1, 0, Some 1) \<in> set heights \<or> (1 = (0::int) \<and> (1, 0, None) \<in> set heights))
   \<and> (key 1 0 1 \<in> occ3D heights \<longleftrightarrow> (1, 0, 1) \<in> set (map with_height heights))
   \<and> with_height (1, 0, None) = (1, 0, 0)
   \<and> with_height (1, 0, Some 1) = (1, 0, 1)
   \<and> key 1 0 0 \<in> occ3D ((1, 0, None) # heights)
   \<and> key 1 0 1 \<in> occ3D ((1, 0, Some 1) # heights)
   \<and> occ3D [(1, 0, Some 1)] = {key 1 0 1}
   \<and> occ3D [(1, 0, None)] = {key 1 0 0}
   \<and> occ3D ((1, 0, Some 1) # (1, 0, Some 1) # heights) = occ3D ((1, 0, Some 1) # heights)"
  by (rule occ3D_one_entry_per_cube)

subsection \<open>Exposure\<close>

lemma has_front:
  "''front'' \<in> set (exposedFacesFor (x, z, h) occ) \<longleftrightarrow> key x (js_add z 1) h \<notin> occ"
  by (simp add: exposedFacesFor_def Let_def)

lemma has_back:
  "''back'' \<in> set (exposedFacesFor (x, z, h) occ) \<longleftrightarrow> key x (js_sub z 1) h \<notin> occ"
  by (simp add: exposedFacesFor_def Let_def)

lemma has_left:
  "''left'' \<in> set (exposedFacesFor (x, z, h) occ) \<longleftrightarrow> key (js_sub x 1) z h \<notin> occ"
  by (simp add: exposedFacesFor_def Let_def)

lemma has_right:
  "''right'' \<in> set (exposedFacesFor (x, z, h) occ) \<longleftrightarrow> key (js_add x 1) z h \<notin> occ"
  by (simp add: exposedFacesFor_def Let_def)

lemma cubes_lone: "cubes lone = {(9007199254740992, 0, 0)}"
  by (simp add: cubes_def lone_def)

text \<open>
  C1, as stated, fails beyond the safe integers.  At \<open>x = 2^53\<close> the sum \<open>x + 1\<close> rounds
  back to \<open>x\<close>, so a cube there finds itself when it looks for its right neighbour: for the
  list \<open>lone\<close>, which holds only the cube \<open>(2^53, 0, 0)\<close>, the index lacks
  \<open>(2^53 + 1, 0, 0)\<close> and yet right is not among the exposed faces.
\<close>

theorem exposure_beyond_safe:
  "exposedFacesFor (9007199254740992, 0, 0) (occ3D lone) = [''front'', ''back'', ''left'']
   \<and> ''right'' \<notin> set (exposedFacesFor (9007199254740992, 0, 0) (occ3D lone))
   \<and> key (9007199254740992 + 1) 0 0 \<notin> occ3D lone
   \<and> (9007199254740992 + 1, 0, 0) \<notin> cubes lone"
proof -
  have e: "exposedFacesFor (9007199254740992, 0, 0) (occ3D lone) = [''front'', ''back'', ''left'']"
    by (simp add: exposedFacesFor_def Let_def js_at_limit key_mem_occ3D cubes_lone)
  have k: "key (9007199254740992 + 1) 0 0 \<notin> occ3D lone"
    by (simp add: key_mem_occ3D cubes_lone)
  have c: "(9007199254740992 + 1, 0, 0) \<notin> cubes lone"
    by (simp add: cubes_lone)
  from e k c show ?thesis by simp
qed

text \<open>
  C1, amended.  For every cube \<open>(x, z, h)\<close> whose x and z are safe integers, negative ones
  included, and every index, the faces \<^verbatim>\<open>exposedFacesFor\<close> returns contain front exactly
  when the index lacks the key of \<open>(x, z + 1, h)\<close>, back when it lacks \<open>(x, z - 1, h)\<close>,
  left when it lacks \<open>(x - 1, z, h)\<close> and right when it lacks \<open>(x + 1, z, h)\<close>; for the
  index built from a coordinate list that is exactly when the list has no such cube.  The
  function is total: there is no input on which it fails.
\<close>

theorem exposedFacesFor_exposure:
  assumes "safe_integer x" and "safe_integer z"
  shows "(''front'' \<in> set (exposedFacesFor (x, z, h) occ) \<longleftrightarrow> key x (z + 1) h \<notin> occ)
   \<and> (''back'' \<in> set (exposedFacesFor (x, z, h) occ) \<longleftrightarrow> key x (z - 1) h \<notin> occ)
   \<and> (''left'' \<in> set (exposedFacesFor (x, z, h) occ) \<longleftrightarrow> key (x - 1) z h \<notin> occ)
   \<and> (''right'' \<in> set (exposedFacesFor (x, z, h) occ) \<longleftrightarrow> key (x + 1) z h \<notin> occ)
   \<and> (''front'' \<in> set (exposedFacesFor (x, z, h) (occ3D data)) \<longleftrightarrow> (x, z + 1, h) \<notin> cubes data)
   \<and> (''back'' \<in> set (exposedFacesFor (x, z, h) (occ3D data)) \<longleftrightarrow> (x, z - 1, h) \<notin> cubes data)
   \<and> (''left'' \<in> set (exposedFacesFor (x, z, h) (occ3D data)) \<longleftrightarrow> (x - 1, z, h) \<notin> cubes data)
   \<and> (''right'' \<in> set (exposedFacesFor (x, z, h) (occ3D data)) \<longleftrightarrow> (x + 1, z, h) \<notin> cubes data)"
  by (simp only: has_front has_back has_left has_right key_mem_occ3D
      js_add_safe [OF assms(1)] js_add_safe [OF assms(2)] simp_thms)

theorem exposedFacesFor_exposure_witness:
  "exposedFacesFor (- 1, 0, 0) (occ3D two_cubes) = [''front'', ''back'', ''right'']
   \<and> (''left'' \<in> set (exposedFacesFor (- 1, 0, 0) (occ3D two_cubes)) \<longleftrightarrow> (- 1 - 1, 0, 0) \<notin> cubes two_cubes)
   \<and> (''right'' \<in> set (exposedFacesFor (- 1, 0, 0) (occ3D two_cubes)) \<longleftrightarrow> (- 1 + 1, 0, 0) \<notin> cubes two_cubes)
   \<and> (''right'' \<in> set (exposedFacesFor (9007199254740991, 0, 0) (occ3D lone))
        \<longleftrightarrow> (9007199254740991 + 1, 0, 0) \<notin> cubes lone)"
proof -
  have s: "safe_integer (- 1)" "safe_integer 0" "safe_integer 9007199254740991"
    by (simp_all add: safe_integer_def)
  have c: "cubes two_cubes = {(- 1, 0, 0), (- 2, 0, 0)}"
    by (auto simp: cubes_def two_cubes_def)
  have e: "exposedFacesFor (- 1, 0, 0) (occ3D two_cubes) = [''front'', ''back'', ''right'']"
    by (simp add: exposedFacesFor_def Let_def js_add_safe [OF s(1)] js_add_safe [OF s(2)]
        key_mem_occ3D c)
  from exposedFacesFor_exposure [OF s(1) s(2), of 0 "occ3D two_cubes" two_cubes]
    exposedFacesFor_exposure [OF s(3) s(2), of 0 "occ3D lone" lone] e
  show ?thesis by blast
qed

subsection \<open>The block\<close>

lemma children_add [simp]: "children (add g c) = children g @ [c]"
  by (cases g) simp

lemma children_new_Group [simp]: "children new_Group = []"
  by (simp add: new_Group_def)

lemma exposedFacesFor_sides:
  "set (exposedFacesFor c occ) \<subseteq> {''front'', ''back'', ''left'', ''right''}"
  by (cases c) (auto simp: exposedFacesFor_def Let_def)

lemma children_addBar:
  "children (addBar m geom x y z g) = children g @ [shadows (position_set x y z (new_Mesh geom m))]"
  by (simp add: addBar_def Let_def)

lemma children_edge_bars: "children (edge_bars m g) = children g @ bars m"
  by (simp add: edge_bars_def bars_def Let_def children_addBar)

lemma fold_faces_children:
  "children (fold (\<lambda>f g. if f = ''front'' \<or> f = ''back'' \<or> f = ''left'' \<or> f = ''right''
                       then addFace faceGeom faceMat f g else g) fs g)
   = children g @ map (face_panel faceGeom faceMat) (filter (\<lambda>f. f \<in> set side_names) fs)"
  by (induction fs arbitrary: g) (auto simp: addFace_def side_names_def)

lemma children_createBlock:
  "children (createBlock fs m)
   = bars m @ map (face_panel (PlaneGeometry size_c size_c) (face_material m))
                (filter (\<lambda>f. f \<in> set side_names) fs)"
  by (simp add: createBlock_def Let_def fold_faces_children children_edge_bars face_material_def)

lemma bars_explicit:
  "bars m = map (\<lambda>(g, x, y, z). Object3D (Mesh g m) (Vector3 x y z) (Euler 0 0 0) True True [])
     [(BoxGeometry 1 (1/20) (1/20), 0, -1/2, 1/2), (BoxGeometry 1 (1/20) (1/20), 0, -1/2, -1/2),
      (BoxGeometry (1/20) (1/20) 1, 1/2, -1/2, 0), (BoxGeometry (1/20) (1/20) 1, -1/2, -1/2, 0),
      (BoxGeometry 1 (1/20) (1/20), 0, 1/2, 1/2), (BoxGeometry 1 (1/20) (1/20), 0, 1/2, -1/2),
      (BoxGeometry (1/20) (1/20) 1, 1/2, 1/2, 0), (BoxGeometry (1/20) (1/20) 1, -1/2, 1/2, 0),
      (BoxGeometry (1/20) 1 (1/20), 1/2, 0, 1/2), (BoxGeometry (1/20) 1 (1/20), -1/2, 0, 1/2),
      (BoxGeometry (1/20) 1 (1/20), 1/2, 0, -1/2), (BoxGeometry (1/20) 1 (1/20), -1/2, 0, -1/2)]"
  by (simp add: bars_def edge_bars_def Let_def children_addBar new_Mesh_def size_c_def t_c_def)

lemma length_bars: "length (bars m) = 12"
  by (simp add: bars_explicit)

lemma filter_bars: "filter is_bar (bars m) = bars m" "filter is_panel (bars m) = []"
  by (simp_all add: bars_explicit is_bar_def is_panel_def)

lemma count_bars:
  "length (filter bottom_bar (bars m)) = 4"
  "length (filter top_bar (bars m)) = 4"
  "length (filter vertical_bar (bars m)) = 4"
  by (simp_all add: bars_explicit bottom_bar_def top_bar_def vertical_bar_def size_c_def t_c_def)

lemma face_panel_kind: "kind (face_panel g fm f) = Mesh g fm"
  by (simp add: face_panel_def new_Mesh_def Let_def)

lemma face_panel_upright:
  "vy (position (face_panel g fm f)) = 0 \<and> rx (rotation (face_panel g fm f)) = 0
   \<and> rz (rotation (face_panel g fm f)) = 0"
  by (simp add: face_panel_def new_Mesh_def Let_def)

lemma face_panel_not_top:
  "\<not> top_panel (face_panel g fm f)" "\<not> bottom_panel (face_panel g fm f)"
  using face_panel_upright [of g fm f]
  by (cases "rotation (face_panel g fm f)"; simp add: top_panel_def bottom_panel_def normal_def)+

lemma bars_not_panel: "\<not> list_ex top_panel (bars m)" "\<not> list_ex bottom_panel (bars m)"
  by (simp_all add: bars_explicit top_panel_def bottom_panel_def is_panel_def)

lemma panels_not_top:
  "\<not> list_ex top_panel (map (face_panel g fm) fs)" "\<not> list_ex bottom_panel (map (face_panel g fm) fs)"
  by (induction fs) (simp_all add: face_panel_not_top)

lemma filter_panels:
  "filter is_panel (map (face_panel (PlaneGeometry a b) fm) fs) = map (face_panel (PlaneGeometry a b) fm) fs"
  "filter is_bar (map (face_panel (PlaneGeometry a b) fm) fs) = []"
  "filter bottom_bar (map (face_panel (PlaneGeometry a b) fm) fs) = []"
  "filter top_bar (map (face_panel (PlaneGeometry a b) fm) fs) = []"
  "filter vertical_bar (map (face_panel (PlaneGeometry a b) fm) fs) = []"
  by (induction fs)
    (simp_all add: is_panel_def is_bar_def bottom_bar_def top_bar_def vertical_bar_def face_panel_kind)

lemma filter_sides_id:
  "set fs \<subseteq> {''front'', ''back'', ''left'', ''right''} \<Longrightarrow> filter (\<lambda>f. f \<in> set side_names) fs = fs"
  by (induction fs) (auto simp: side_names_def)

lemma distinct_sides_le4:
  assumes "distinct fs" "set fs \<subseteq> {''front'', ''back'', ''left'', ''right''}"
  shows "length fs \<le> 4"
proof -
  have "length fs = card (set fs)" using assms(1) by (simp add: distinct_card)
  also have "\<dots> \<le> card {''front'', ''back'', ''left'', ''right''}"
    by (rule card_mono) (use assms(2) in auto)
  also have "\<dots> = 4" by simp
  finally show ?thesis .
qed

lemma face_panel_place:
  "position (face_panel g fm ''front'') = Vector3 0 0 (size_c / 2 + EPS)"
  "position (face_panel g fm ''back'') = Vector3 0 0 (- size_c / 2 - EPS)"
  "position (face_panel g fm ''left'') = Vector3 (- size_c / 2 - EPS) 0 0"
  "position (face_panel g fm ''right'') = Vector3 (size_c / 2 + EPS) 0 0"
  by (simp_all add: face_panel_def new_Mesh_def Let_def)

lemma set_side_names: "set side_names = {''front'', ''back'', ''left'', ''right''}"
  by (simp add: side_names_def)

lemma face_panel_inj:
  assumes "f \<in> set side_names" "f' \<in> set side_names" "face_panel g fm f = face_panel g fm f'"
  shows "f = f'"
proof -
  define name_of where
    "name_of p = (if 0 < vz p then ''front'' else if vz p < 0 then ''back''
                  else if vx p < 0 then ''left'' else ''right'')" for p :: vector3
  have n: "name_of (position (face_panel g fm h)) = h" if "h \<in> set side_names" for h
  proof -
    from that consider "h = ''front''" | "h = ''back''" | "h = ''left''" | "h = ''right''"
      unfolding set_side_names by blast
    then show ?thesis
      by cases (simp_all add: face_panel_place name_of_def size_c_def EPS_def)
  qed
  have "f = name_of (position (face_panel g fm f))" by (simp only: n [OF assms(1)])
  also have "\<dots> = name_of (position (face_panel g fm f'))" by (simp only: assms(3))
  also have "\<dots> = f'" by (rule n [OF assms(2)])
  finally show ?thesis .
qed

lemma distinct_face_panels:
  assumes "distinct fs" "set fs \<subseteq> {''front'', ''back'', ''left'', ''right''}"
  shows "distinct (map (face_panel g fm) fs)"
proof -
  from assms(2) have sub: "set fs \<subseteq> set side_names" by (simp only: set_side_names)
  have "inj_on (face_panel g fm) (set fs)"
  proof (rule inj_onI)
    fix f f' assume a: "f \<in> set fs" "f' \<in> set fs" and e: "face_panel g fm f = face_panel g fm f'"
    from a sub have "f \<in> set side_names" "f' \<in> set side_names" by blast+
    then show "f = f'" using e by (rule face_panel_inj)
  qed
  with assms(1) show ?thesis by (simp add: distinct_map)
qed

text \<open>
  C3.  The faces \<^verbatim>\<open>exposedFacesFor\<close> returns are among front, back, left and right, so
  never top or bottom.  For every list of face names, whatever it holds, the block
  \<^verbatim>\<open>createBlock\<close> builds has no top panel and no bottom panel: its panels are the side
  panels of the entries that name a side, and none of them sits above or below the middle
  of the block or looks up or down.
\<close>

theorem no_top_or_bottom:
  "set (exposedFacesFor c occ) \<subseteq> {''front'', ''back'', ''left'', ''right''}
   \<and> ''top'' \<notin> set (exposedFacesFor c occ)
   \<and> ''bottom'' \<notin> set (exposedFacesFor c occ)
   \<and> \<not> list_ex top_panel (children (createBlock faces material))
   \<and> \<not> list_ex bottom_panel (children (createBlock faces material))
   \<and> filter is_panel (children (createBlock faces material))
       = map (face_panel (PlaneGeometry size_c size_c) (face_material material))
           (filter (\<lambda>f. f \<in> set side_names) faces)"
proof -
  have s: "set (exposedFacesFor c occ) \<subseteq> {''front'', ''back'', ''left'', ''right''}"
    by (rule exposedFacesFor_sides)
  then have t: "''top'' \<notin> set (exposedFacesFor c occ)" and b: "''bottom'' \<notin> set (exposedFacesFor c occ)"
    by auto
  have p: "\<not> list_ex top_panel (children (createBlock faces material))"
    and q: "\<not> list_ex bottom_panel (children (createBlock faces material))"
    using bars_not_panel [of material] panels_not_top
    by (simp_all add: children_createBlock)
  have f: "filter is_panel (children (createBlock faces material))
       = map (face_panel (PlaneGeometry size_c size_c) (face_material material))
           (filter (\<lambda>f. f \<in> set side_names) faces)"
    by (simp add: children_createBlock filter_bars filter_panels)
  from s t b p q f show ?thesis by blast
qed

theorem no_top_or_bottom_witness:
  "set (exposedFacesFor (- 1, 0, 0) (occ3D two_cubes)) \<subseteq> {''front'', ''back'', ''left'', ''right''}
   \<and> ''top'' \<notin> set (exposedFacesFor (- 1, 0, 0) (occ3D two_cubes))
   \<and> ''bottom'' \<notin> set (exposedFacesFor (- 1, 0, 0) (occ3D two_cubes))
   \<and> \<not> list_ex top_panel (children (createBlock [''top'', ''front'', ''bottom''] piece_material))
   \<and> \<not> list_ex bottom_panel (children (createBlock [''top'', ''front'', ''bottom''] piece_material))
   \<and> filter is_panel (children (createBlock [''top'', ''front'', ''bottom''] piece_material))
       = map (face_panel (PlaneGeometry size_c size_c) (face_material piece_material))
           (filter (\<lambda>f. f \<in> set side_names) [''top'', ''front'', ''bottom''])"
  by (rule no_top_or_bottom)

text \<open>
  C4.  For every duplicate-free list of side names and every material, the group
  \<^verbatim>\<open>createBlock\<close> returns holds exactly 12 edge bars (4 along the bottom, 4 along the top,
  4 upright), the same twelve whatever the faces are, and exactly one panel per entry of
  the list, in order and all different, so between 0 and 4 panels; it holds nothing else.
\<close>

theorem createBlock_bars_and_panels:
  assumes "distinct exposedFaces"
    and "set exposedFaces \<subseteq> {''front'', ''back'', ''left'', ''right''}"
  shows "length (filter is_bar (children (createBlock exposedFaces material))) = 12
   \<and> filter is_bar (children (createBlock exposedFaces material)) = bars material
   \<and> length (filter bottom_bar (children (createBlock exposedFaces material))) = 4
   \<and> length (filter top_bar (children (createBlock exposedFaces material))) = 4
   \<and> length (filter vertical_bar (children (createBlock exposedFaces material))) = 4
   \<and> filter is_panel (children (createBlock exposedFaces material))
       = map (face_panel (PlaneGeometry size_c size_c) (face_material material)) exposedFaces
   \<and> distinct (filter is_panel (children (createBlock exposedFaces material)))
   \<and> length (filter is_panel (children (createBlock exposedFaces material))) = length exposedFaces
   \<and> length exposedFaces \<le> 4
   \<and> length (children (createBlock exposedFaces material)) = 12 + length exposedFaces"
proof -
  let ?ps = "map (face_panel (PlaneGeometry size_c size_c) (face_material material)) exposedFaces"
  have c: "children (createBlock exposedFaces material) = bars material @ ?ps"
    by (simp add: children_createBlock filter_sides_id [OF assms(2)])
  have b: "filter is_bar (children (createBlock exposedFaces material)) = bars material"
    by (simp add: c filter_bars filter_panels)
  have n: "length (filter bottom_bar (children (createBlock exposedFaces material))) = 4"
    "length (filter top_bar (children (createBlock exposedFaces material))) = 4"
    "length (filter vertical_bar (children (createBlock exposedFaces material))) = 4"
    by (simp_all add: c count_bars filter_panels)
  have p: "filter is_panel (children (createBlock exposedFaces material)) = ?ps"
    by (simp add: c filter_bars filter_panels)
  have d: "distinct ?ps" using assms by (rule distinct_face_panels)
  have l: "length exposedFaces \<le> 4" using assms by (rule distinct_sides_le4)
  from b n p d l show ?thesis by (simp add: c length_bars)
qed

theorem createBlock_bars_and_panels_witness:
  "length (filter is_bar (children (createBlock [''front'', ''back'', ''right''] piece_material))) = 12
   \<and> filter is_bar (children (createBlock [''front'', ''back'', ''right''] piece_material)) = bars piece_material
   \<and> length (filter bottom_bar (children (createBlock [''front'', ''back'', ''right''] piece_material))) = 4
   \<and> length (filter top_bar (children (createBlock [''front'', ''back'', ''right''] piece_material))) = 4
   \<and> length (filter vertical_bar (children (createBlock [''front'', ''back'', ''right''] piece_material))) = 4
   \<and> filter is_panel (children (createBlock [''front'', ''back'', ''right''] piece_material))
       = map (face_panel (PlaneGeometry size_c size_c) (face_material piece_material))
           [''front'', ''back'', ''right'']
   \<and> distinct (filter is_panel (children (createBlock [''front'', ''back'', ''right''] piece_material)))
   \<and> length (filter is_panel (children (createBlock [''front'', ''back'', ''right''] piece_material)))
       = length [''front'', ''back'', ''right'']
   \<and> length [''front'', ''back'', ''right''] \<le> 4
   \<and> length (children (createBlock [''front'', ''back'', ''right''] piece_material))
       = 12 + length [''front'', ''back'', ''right'']"
  by (rule createBlock_bars_and_panels) simp_all

subsection \<open>The partitions\<close>

lemma children_wall_step:
  "children (wall_step (occ3D data) fm c g) = children g @ walls_of (cubes data) fm (with_height c)"
proof -
  obtain x z ho where c: "c = (x, z, ho)" by (cases c)
  show ?thesis
    unfolding c with_height_height
    by (simp add: wall_step_def walls_of_def Let_def key_mem_occ3D)
qed

lemma children_fold_wall_step:
  "children (fold (wall_step (occ3D data) fm) cs g)
   = children g @ concat (map (walls_of (cubes data) fm) (map with_height cs))"
  by (induction cs arbitrary: g) (simp_all add: children_wall_step)

lemma children_addInternalWalls:
  "children (addInternalWalls data g m) = children g @ emitted data m"
  by (simp add: addInternalWalls_def emitted_def Let_def children_fold_wall_step)

lemma emitted_concat:
  "emitted data m = concat (map (walls_of (cubes data) (face_material m)) (map with_height data))"
  by (simp add: addInternalWalls_def emitted_def Let_def children_fold_wall_step face_material_def)

lemma walls_of_safe:
  assumes "safe_cube a"
  shows "walls_of S fm a =
     (case a of (x, z, h) \<Rightarrow>
        (if plus_x a \<in> S then [wall_x fm x z h] else []) @
        (if plus_z a \<in> S then [wall_z fm x z h] else []))"
  using assms by (cases a) (simp add: walls_of_def safe_cube_def js_add_safe plus_x_def plus_z_def)

lemma length_walls_of:
  assumes "safe_cube a"
  shows "length (walls_of S fm a) = (if plus_x a \<in> S then 1 else 0) + (if plus_z a \<in> S then 1 else 0)"
  unfolding walls_of_safe [OF assms] by (cases a) simp

lemma length_concat_walls:
  "list_all safe_cube cs \<Longrightarrow>
   length (concat (map (walls_of S fm) cs))
   = length (filter (\<lambda>a. plus_x a \<in> S) cs) + length (filter (\<lambda>a. plus_z a \<in> S) cs)"
  by (induction cs) (simp_all add: length_walls_of)

lemma wall_between_plus:
  "wall_between fm (x, z, h) (plus_x (x, z, h)) = wall_x fm x z h"
  "wall_between fm (x, z, h) (plus_z (x, z, h)) = wall_z fm x z h"
  by (simp_all add: wall_between_def plus_x_def plus_z_def)

lemma wall_between_sym:
  "same_height_adjacent a b \<Longrightarrow> wall_between fm a b = wall_between fm b a"
  by (cases a; cases b) (auto simp: wall_between_def same_height_adjacent_def min_def)

lemma set_walls_of:
  assumes "safe_cube a"
  shows "set (walls_of S fm a)
   = {p. (plus_x a \<in> S \<and> p = wall_between fm a (plus_x a))
       \<or> (plus_z a \<in> S \<and> p = wall_between fm a (plus_z a))}"
proof -
  obtain x z h where a: "a = (x, z, h)" by (cases a)
  show ?thesis
    unfolding walls_of_safe [OF assms] unfolding a wall_between_plus by auto
qed

lemma adjacent_cases:
  "same_height_adjacent a b \<longleftrightarrow> b = plus_x a \<or> a = plus_x b \<or> b = plus_z a \<or> a = plus_z b"
  by (cases a; cases b) (auto simp: same_height_adjacent_def plus_x_def plus_z_def)

lemma adjacent_pairs_split:
  "adjacent_pairs S = (\<lambda>a. {a, plus_x a}) ` {a \<in> S. plus_x a \<in> S} \<union> (\<lambda>a. {a, plus_z a}) ` {a \<in> S. plus_z a \<in> S}"
  (is "?L = ?X \<union> ?Z")
proof (intro set_eqI iffI)
  fix P assume "P \<in> ?L"
  then obtain a b where ab: "a \<in> S" "b \<in> S" "same_height_adjacent a b" and P: "P = {a, b}"
    by (auto simp: adjacent_pairs_def)
  from ab(3) consider "b = plus_x a" | "a = plus_x b" | "b = plus_z a" | "a = plus_z b"
    by (auto simp: adjacent_cases)
  then show "P \<in> ?X \<union> ?Z"
  proof cases
    case 1 with ab P show ?thesis by auto
  next
    case 2 
    with ab have "b \<in> {a \<in> S. plus_x a \<in> S}" by simp
    moreover from 2 P have "P = {b, plus_x b}" by auto
    ultimately show ?thesis by blast
  next
    case 3 with ab P show ?thesis by auto
  next
    case 4
    with ab have "b \<in> {a \<in> S. plus_z a \<in> S}" by simp
    moreover from 4 P have "P = {b, plus_z b}" by auto
    ultimately show ?thesis by blast
  qed
next
  fix P assume "P \<in> ?X \<union> ?Z"
  then show "P \<in> ?L"
    by (force simp: adjacent_pairs_def adjacent_cases)
qed

lemma plus_x_pair_inj: "inj_on (\<lambda>a. {a, plus_x a}) A"
  by (auto simp: inj_on_def doubleton_eq_iff plus_x_def split: prod.splits)

lemma plus_z_pair_inj: "inj_on (\<lambda>a. {a, plus_z a}) A"
  by (auto simp: inj_on_def doubleton_eq_iff plus_z_def split: prod.splits)

lemma plus_pairs_disjoint: "(\<lambda>a. {a, plus_x a}) ` A \<inter> (\<lambda>a. {a, plus_z a}) ` B = {}"
  by (auto simp: doubleton_eq_iff plus_x_def plus_z_def split: prod.splits)

lemma card_adjacent_pairs:
  assumes "finite S"
  shows "card (adjacent_pairs S) = card {a \<in> S. plus_x a \<in> S} + card {a \<in> S. plus_z a \<in> S}"
proof -
  have fx: "finite {a \<in> S. plus_x a \<in> S}" and fz: "finite {a \<in> S. plus_z a \<in> S}"
    using assms by simp_all
  have "card (adjacent_pairs S)
      = card ((\<lambda>a. {a, plus_x a}) ` {a \<in> S. plus_x a \<in> S}) + card ((\<lambda>a. {a, plus_z a}) ` {a \<in> S. plus_z a \<in> S})"
    unfolding adjacent_pairs_split
    by (rule card_Un_disjoint) (use fx fz plus_pairs_disjoint in auto)
  then show ?thesis
    by (simp add: card_image plus_x_pair_inj plus_z_pair_inj)
qed

lemma length_emitted:
  assumes "distinct (map with_height data)" and "list_all safe_cube (map with_height data)"
  shows "length (emitted data m) = card (adjacent_pairs (cubes data))"
proof -
  let ?cs = "map with_height data"
  have l: "length (filter P ?cs) = card ({x. P x} \<inter> set ?cs)" for P
    by (rule distinct_length_filter [OF assms(1)])
  have e: "{x. P x} \<inter> set ?cs = {a \<in> cubes data. P a}" for P
    by (auto simp: cubes_def)
  have f: "finite (cubes data)" by (simp add: cubes_def)
  have "length (emitted data m)
      = length (filter (\<lambda>a. plus_x a \<in> cubes data) ?cs) + length (filter (\<lambda>a. plus_z a \<in> cubes data) ?cs)"
    unfolding emitted_concat by (rule length_concat_walls [OF assms(2)])
  also have "\<dots> = card {a \<in> cubes data. plus_x a \<in> cubes data} + card {a \<in> cubes data. plus_z a \<in> cubes data}"
    unfolding l e ..
  also have "\<dots> = card (adjacent_pairs (cubes data))"
    using card_adjacent_pairs [OF f] by simp
  finally show ?thesis .
qed

lemma set_emitted_walls:
  "set (emitted data m) = (\<Union>a\<in>cubes data. set (walls_of (cubes data) (face_material m) a))"
  by (simp add: emitted_concat cubes_def)

lemma mem_emitted:
  assumes "list_all safe_cube (map with_height data)"
  shows "p \<in> set (emitted data m) \<longleftrightarrow>
     (\<exists>a. a \<in> cubes data \<and>
        ((plus_x a \<in> cubes data \<and> p = wall_between (face_material m) a (plus_x a))
       \<or> (plus_z a \<in> cubes data \<and> p = wall_between (face_material m) a (plus_z a))))"
proof -
  have s: "safe_cube a" if "a \<in> cubes data" for a
    using assms that by (simp add: cubes_def list_all_iff del: set_map)
  show ?thesis
    unfolding set_emitted_walls using s by (auto simp: set_walls_of)
qed

lemma set_emitted:
  assumes "list_all safe_cube (map with_height data)"
  shows "set (emitted data m)
   = (\<lambda>(a, b). wall_between (face_material m) a b)
       ` {(a, b) \<in> cubes data \<times> cubes data. same_height_adjacent a b}"
  (is "?L = ?R")
proof (intro set_eqI iffI)
  fix p assume "p \<in> ?L"
  then obtain a where a: "a \<in> cubes data"
    and p: "(plus_x a \<in> cubes data \<and> p = wall_between (face_material m) a (plus_x a))
          \<or> (plus_z a \<in> cubes data \<and> p = wall_between (face_material m) a (plus_z a))"
    unfolding mem_emitted [OF assms] by blast
  from p show "p \<in> ?R"
  proof
    assume h: "plus_x a \<in> cubes data \<and> p = wall_between (face_material m) a (plus_x a)"
    with a have "(a, plus_x a) \<in> {(a, b) \<in> cubes data \<times> cubes data. same_height_adjacent a b}"
      by (simp add: adjacent_cases)
    with h show ?thesis by (metis (mono_tags, lifting) case_prod_conv image_eqI)
  next
    assume h: "plus_z a \<in> cubes data \<and> p = wall_between (face_material m) a (plus_z a)"
    with a have "(a, plus_z a) \<in> {(a, b) \<in> cubes data \<times> cubes data. same_height_adjacent a b}"
      by (simp add: adjacent_cases)
    with h show ?thesis by (metis (mono_tags, lifting) case_prod_conv image_eqI)
  qed
next
  fix p assume "p \<in> ?R"
  then obtain a b where ab: "a \<in> cubes data" "b \<in> cubes data" "same_height_adjacent a b"
    and p: "p = wall_between (face_material m) a b"
    by auto
  have q: "p = wall_between (face_material m) b a" using p wall_between_sym [OF ab(3)] by simp
  have m: "q \<in> ?L" if "c \<in> cubes data" and
    "(plus_x c \<in> cubes data \<and> q = wall_between (face_material m) c (plus_x c))
     \<or> (plus_z c \<in> cubes data \<and> q = wall_between (face_material m) c (plus_z c))" for c q
    unfolding mem_emitted [OF assms] using that by blast
  from ab(3) consider "b = plus_x a" | "a = plus_x b" | "b = plus_z a" | "a = plus_z b"
    by (auto simp: adjacent_cases)
  then show "p \<in> ?L"
  proof cases
    case 1 with ab p show ?thesis by (intro m [of a]) auto
  next
    case 2 with ab q show ?thesis by (intro m [of b]) auto
  next
    case 3 with ab p show ?thesis by (intro m [of a]) auto
  next
    case 4 with ab q show ?thesis by (intro m [of b]) auto
  qed
qed


lemma cubes_dup: "cubes dup = {(0, 0, 0), (1, 0, 0)}"
  by (auto simp: cubes_def dup_def)

lemma small_sums:
  "js_add 0 1 = 1" "js_add 1 1 = 2" "js_add 2 1 = 3"
  "js_add 4503599627370496 1 = 4503599627370497" "js_add 4503599627370497 1 = 4503599627370498"
  by (simp_all add: js_add_def fl_int_exact)

lemma emitted_dup:
  "emitted dup piece_material
   = [wall_x (face_material piece_material) 0 0 0, wall_x (face_material piece_material) 0 0 0]"
  by (simp add: emitted_concat cubes_dup) (simp add: dup_def walls_of_def small_sums)

lemma card_pairs_dup: "card (adjacent_pairs (cubes dup)) = 1"
proof -
  have x: "{a \<in> cubes dup. plus_x a \<in> cubes dup} = {(0, 0, 0)}"
    by (auto simp: cubes_dup plus_x_def)
  have z: "{a \<in> cubes dup. plus_z a \<in> cubes dup} = {}"
    by (auto simp: cubes_dup plus_z_def)
  have "finite (cubes dup)" by (simp add: cubes_dup)
  from card_adjacent_pairs [OF this] x z show ?thesis by simp
qed

lemma entries_dup: "length (adjacent_entries dup) = 4"
  by (simp add: adjacent_entries_def dup_def same_height_adjacent_def upt_rec)

lemma emitted_lone:
  "emitted lone piece_material = [wall_x (face_material piece_material) 9007199254740992 0 0]"
  by (simp add: emitted_concat cubes_lone) (simp add: lone_def walls_of_def js_at_limit)

lemma card_pairs_lone: "card (adjacent_pairs (cubes lone)) = 0"
proof -
  have x: "{a \<in> cubes lone. plus_x a \<in> cubes lone} = {}"
    by (auto simp: cubes_lone plus_x_def)
  have z: "{a \<in> cubes lone. plus_z a \<in> cubes lone} = {}"
    by (auto simp: cubes_lone plus_z_def)
  have "finite (cubes lone)" by (simp add: cubes_lone)
  from card_adjacent_pairs [OF this] x z show ?thesis by simp
qed

lemma square_ok: "distinct (map with_height square)" "list_all safe_cube (map with_height square)"
  by (simp_all add: square_def safe_cube_def safe_integer_def)


text \<open>
  C2, as stated, fails on a list that repeats cubes and on a list with a cube beyond the
  safe integers.  For the list \<open>dup\<close>, which holds \<open>(0, 0, 0)\<close> twice and \<open>(1, 0, 0)\<close>
  twice, \<^verbatim>\<open>addInternalWalls\<close> emits two panels (the same panel twice), while there is one
  unordered pair of adjacent cubes, and four pairs when the cubes are counted by their
  places in the list.  For the list \<open>lone\<close>, which holds the single cube \<open>(2^53, 0, 0)\<close>,
  it emits one panel, the cube being its own neighbour because \<open>2^53 + 1\<close> rounds to
  \<open>2^53\<close>, while there is no pair at all.
\<close>

theorem partition_count_duplicates:
  "length (emitted dup piece_material) = 2
   \<and> \<not> distinct (emitted dup piece_material)
   \<and> card (adjacent_pairs (cubes dup)) = 1
   \<and> length (adjacent_entries dup) = 4
   \<and> distinct (map with_height lone)
   \<and> length (emitted lone piece_material) = 1
   \<and> card (adjacent_pairs (cubes lone)) = 0"
proof -
  have "\<not> distinct (emitted dup piece_material)" "length (emitted dup piece_material) = 2"
    by (simp_all add: emitted_dup)
  moreover have "length (emitted lone piece_material) = 1" by (simp add: emitted_lone)
  moreover have "distinct (map with_height lone)" by (simp add: lone_def)
  ultimately show ?thesis using card_pairs_dup entries_dup card_pairs_lone by blast
qed

text \<open>
  C2, amended.  For every coordinate list in which no cube occurs twice (heights filled
  in) and every cube has safe integers for x and z, \<^verbatim>\<open>addInternalWalls\<close> adds to the
  group exactly one partition panel per unordered pair of cubes that are same-height and
  axis-adjacent: the number of panels is the number of such pairs, and the panels are
  exactly the walls the loop makes for such pairs.  Cubes that are adjacent in height only
  get no panel.
\<close>

theorem partition_count:
  assumes "distinct (map with_height data)"
    and "list_all safe_cube (map with_height data)"
  shows "children (addInternalWalls data g m) = children g @ emitted data m
   \<and> length (emitted data m) = card (adjacent_pairs (cubes data))
   \<and> set (emitted data m)
       = (\<lambda>(a, b). wall_between (face_material m) a b)
           ` {(a, b) \<in> cubes data \<times> cubes data. same_height_adjacent a b}
   \<and> emitted [(0, 0, Some h), (0, 0, Some (h + 1))] m = []"
proof -
  have v: "emitted [(0, 0, Some h), (0, 0, Some (h + 1))] m = []"
    by (simp add: emitted_concat cubes_def walls_of_def small_sums)
  from children_addInternalWalls length_emitted [OF assms] set_emitted [OF assms(2)] v
  show ?thesis by blast
qed

theorem partition_count_witness:
  "children (addInternalWalls square new_Group piece_material)
     = children new_Group @ emitted square piece_material
   \<and> length (emitted square piece_material) = card (adjacent_pairs (cubes square))
   \<and> set (emitted square piece_material)
       = (\<lambda>(a, b). wall_between (face_material piece_material) a b)
           ` {(a, b) \<in> cubes square \<times> cubes square. same_height_adjacent a b}
   \<and> emitted [(0, 0, Some 0), (0, 0, Some (0 + 1))] piece_material = []"
  by (rule partition_count) (rule square_ok)+










subsection \<open>The scene graph along a run\<close>

lemma init_scene_fields:
  "scene init_scene = 0" "next_ref init_scene = 4" "currentPiece init_scene = None"
  "pivot init_scene = None" "links init_scene = (\<lambda>r. [])(0 := [1, 2, 3])"
  "dom (objects init_scene) = {0, 1, 2, 3}"
  by (auto simp: init_scene_def new_object_def add_ref_def Let_def fun_eq_iff)

lemma graph_ok_init: "graph_ok init_scene"
  by (auto simp: graph_ok_def init_scene_fields)

lemma same_graph_update_object [simp]: "same_graph s (update_object r f s)"
  by (auto simp: same_graph_def update_object_def split: option.splits)

lemma same_graph_refl [simp]: "same_graph s s"
  by (simp add: same_graph_def)

lemma same_graph_trans: "same_graph s s' \<Longrightarrow> same_graph s' s'' \<Longrightarrow> same_graph s s''"
  by (simp add: same_graph_def)

lemma pivot_update_object [simp]: "pivot (update_object r f s) = pivot s"
  by (simp add: update_object_def split: option.splits)

lemma same_graph_animate: "same_graph s (animate s)"
  by (auto simp: animate_def Let_def same_graph_def update_object_def pivot_rotation_x_def split: option.splits)

lemma same_graph_onTouchStart: "same_graph s (onTouchStart cx cy s)"
  by (simp add: onTouchStart_def same_graph_def)

lemma same_graph_onTouchMove: "same_graph s (onTouchMove cx cy s)"
  by (auto simp: onTouchMove_def Let_def same_graph_def update_object_def split: option.splits)

lemma same_graph_onTouchEnd: "same_graph s (onTouchEnd s)"
  by (simp add: onTouchEnd_def same_graph_def)

lemma same_graph_pauseClick: "same_graph s (pauseClick s)"
  by (simp add: pauseClick_def same_graph_def)

lemma graph_ok_same: "same_graph s s' \<Longrightarrow> graph_ok s \<Longrightarrow> graph_ok s'"
  by (auto simp: same_graph_def graph_ok_def split: option.splits)

lemma current_same: "same_graph s s' \<Longrightarrow> current s' = current s"
  by (simp add: same_graph_def current_def)


lemma new_object_simps [simp]:
  "fst (new_object v s) = next_ref s"
  "objects (snd (new_object v s)) = (objects s)(next_ref s \<mapsto> v)"
  "links (snd (new_object v s)) = (links s)(next_ref s := [])"
  "next_ref (snd (new_object v s)) = Suc (next_ref s)"
  "scene (snd (new_object v s)) = scene s"
  "currentPiece (snd (new_object v s)) = currentPiece s"
  "pivot (snd (new_object v s)) = pivot s"
  by (simp_all add: new_object_def)

lemma add_ref_simps [simp]:
  "objects (add_ref p c s) = objects s"
  "links (add_ref p c s) = (links s)(p := links s p @ [c])"
  "next_ref (add_ref p c s) = next_ref s"
  "scene (add_ref p c s) = scene s"
  "currentPiece (add_ref p c s) = currentPiece s"
  "pivot (add_ref p c s) = pivot s"
  by (simp_all add: add_ref_def)

lemma remove_ref_simps [simp]:
  "objects (remove_ref p c s) = objects s"
  "links (remove_ref p c s) = (links s)(p := remove1 c (links s p))"
  "next_ref (remove_ref p c s) = next_ref s"
  "scene (remove_ref p c s) = scene s"
  "currentPiece (remove_ref p c s) = currentPiece s"
  "pivot (remove_ref p c s) = pivot s"
  by (simp_all add: remove_ref_def)

lemma generateFrom_simple_fields:
  "currentPiece (generateFrom bc data s) = Some (next_ref s)"
  "pivot (generateFrom bc data s) = Some (Suc (next_ref s))"
  "next_ref (generateFrom bc data s) = Suc (Suc (next_ref s))"
  "scene (generateFrom bc data s) = scene s"
  by (simp_all add: generateFrom_def Let_def split_def split: option.splits)

lemma dom_generateFrom:
  "dom (objects (generateFrom bc data s)) = insert (Suc (next_ref s)) (insert (next_ref s) (dom (objects s)))"
  by (simp add: generateFrom_def Let_def split_def split: option.splits)

lemma graph_ok_NoneD:
  assumes "graph_ok s" "currentPiece s = None"
  shows "pivot s = None \<and> scene s = 0 \<and> links s 0 = [1, 2, 3] \<and> next_ref s = 4
    \<and> links s 1 = [] \<and> links s 2 = [] \<and> links s 3 = [] \<and> dom (objects s) \<subseteq> {..<next_ref s}"
  using assms by (cases "pivot s") (auto simp: graph_ok_def)

lemma graph_ok_SomeD:
  assumes "graph_ok s" "currentPiece s = Some cp"
  shows "pivot s = Some (Suc cp) \<and> scene s = 0 \<and> links s 0 = [1, 2, 3, Suc cp]
    \<and> links s (Suc cp) = [cp] \<and> links s cp = [] \<and> 4 \<le> cp \<and> next_ref s = Suc (Suc cp)
    \<and> links s 1 = [] \<and> links s 2 = [] \<and> links s 3 = [] \<and> dom (objects s) \<subseteq> {..<next_ref s}
    \<and> cp \<in> dom (objects s) \<and> Suc cp \<in> dom (objects s)"
  using assms by (cases "pivot s") (auto simp: graph_ok_def)

lemma generateFrom_graph_ok:
  assumes "graph_ok s"
  shows "graph_ok (generateFrom bc data s)"
proof -
  let ?s' = "generateFrom bc data s"
  let ?n = "next_ref s"
  have d: "dom (objects ?s') \<subseteq> {..<next_ref ?s'}"
  proof -
    have "dom (objects s) \<subseteq> {..<?n}" using assms by (simp add: graph_ok_def)
    then show ?thesis
      unfolding dom_generateFrom generateFrom_simple_fields by auto
  qed
  have m: "Suc ?n \<in> dom (objects ?s')" "?n \<in> dom (objects ?s')"
    unfolding dom_generateFrom by simp_all
  have l: "links ?s' 0 = [1, 2, 3, Suc ?n] \<and> links ?s' (Suc ?n) = [?n] \<and> links ?s' ?n = []
      \<and> links ?s' 1 = [] \<and> links ?s' 2 = [] \<and> links ?s' 3 = [] \<and> 4 \<le> ?n"
  proof (cases "currentPiece s")
    case None
    from graph_ok_NoneD [OF assms None] show ?thesis
      by (simp add: generateFrom_def Let_def split_def None)
  next
    case (Some cp)
    from graph_ok_SomeD [OF assms Some] show ?thesis
      by (simp add: generateFrom_def Let_def split_def Some)
  qed
  have sc: "scene ?s' = 0" using assms by (simp add: generateFrom_simple_fields graph_ok_def)
  from d m l sc show ?thesis
    unfolding graph_ok_def by (simp add: generateFrom_simple_fields)
qed

lemma length_pieces: "length pieces = 7"
  by (simp add: pieces_def)

lemma pick_valid:
  assumes "0 \<le> rnd" "rnd < 1"
  shows "\<exists>data. pick rnd = Some data \<and> data \<in> set pieces"
proof -
  let ?i = "\<lfloor>rnd * 7\<rfloor>"
  from assms(1) have a: "0 \<le> ?i" by simp
  from assms(2) have "rnd * 7 < 7" by simp
  then have b: "?i < 7" by (simp add: floor_less_iff)
  from a b have "nat ?i < length pieces" by (simp add: length_pieces nat_less_iff)
  then have "pieces ! nat ?i \<in> set pieces" by (rule nth_mem)
  with a b show ?thesis by (simp add: pick_def length_pieces Let_def)
qed

lemma current_generateFrom: "current (generateFrom bc data s) = {next_ref s, Suc (next_ref s)}"
  by (auto simp: current_def generateFrom_simple_fields)

lemma same_graph_keeps:
  assumes "same_graph s s'" "graph_ok s"
  shows "graph_ok s' \<and> next_ref s' = next_ref s + 0 \<and> current s' = current s"
  using graph_ok_same [OF assms] current_same [OF assms(1)] assms(1)
  by (simp add: same_graph_def)

lemma step_valid:
  assumes "valid_event e" "graph_ok s"
  shows "\<exists>s'. step bc e s = Inr s' \<and> graph_ok s'
     \<and> next_ref s' = next_ref s + (if is_NewPiece e then 2 else 0)
     \<and> current s' = (if is_NewPiece e then {next_ref s, Suc (next_ref s)} else current s)"
proof (cases e)
  case (NewPiece rnd)
  with assms(1) obtain data where "pick rnd = Some data" using pick_valid [of rnd] by auto
  with NewPiece generateFrom_graph_ok [OF assms(2), of bc data] show ?thesis
    by (simp add: generateNewPiece_def generateFrom_simple_fields current_generateFrom)
next
  case Frame
  with same_graph_keeps [OF same_graph_animate assms(2)] show ?thesis by simp
next
  case (TouchStart cx cy)
  with same_graph_keeps [OF same_graph_onTouchStart assms(2)] show ?thesis by simp
next
  case (TouchMove cx cy)
  with same_graph_keeps [OF same_graph_onTouchMove assms(2)] show ?thesis by simp
next
  case TouchEnd
  with same_graph_keeps [OF same_graph_onTouchEnd assms(2)] show ?thesis by simp
next
  case PauseClick
  with same_graph_keeps [OF same_graph_pauseClick assms(2)] show ?thesis by simp
qed

lemma calls_Cons: "calls (e # es) = (if is_NewPiece e then 1 else 0) + calls es"
  by (simp add: calls_def)

lemma current_below: "graph_ok s \<Longrightarrow> current s \<subseteq> {4..<next_ref s}"
  by (auto simp: graph_ok_def current_def split: option.splits)

lemma step_NewPiece:
  assumes "valid_event e" "is_NewPiece e" "graph_ok s"
  shows "\<exists>s'. step bc e s = Inr s' \<and> graph_ok s' \<and> next_ref s' = Suc (Suc (next_ref s))
     \<and> current s' = {next_ref s, Suc (next_ref s)}"
  using step_valid [OF assms(1) assms(3), of bc] assms(2) by simp

lemma step_other:
  assumes "valid_event e" "\<not> is_NewPiece e" "graph_ok s"
  shows "\<exists>s'. step bc e s = Inr s' \<and> graph_ok s' \<and> next_ref s' = next_ref s
     \<and> current s' = current s"
  using step_valid [OF assms(1) assms(3), of bc] assms(2) by simp

lemma interval_grow: "Suc (Suc n) \<le> n' \<Longrightarrow> {n, Suc n} \<union> {Suc (Suc n)..<n'} = {n..<n'}"
  by auto

lemma exec_run:
  assumes "list_all valid_event evs" "graph_ok s"
  shows "\<exists>s'. exec bc evs s = Inr s' \<and> graph_ok s'
     \<and> next_ref s' = next_ref s + 2 * calls evs
     \<and> made bc evs s \<union> current s = current s \<union> {next_ref s..<next_ref s'}"
  using assms
proof (induction evs arbitrary: s)
  case Nil
  then show ?case by (simp add: calls_def)
next
  case (Cons e es)
  from Cons.prems have ve: "valid_event e" and ves: "list_all valid_event es" by simp_all
  show ?case
  proof (cases "is_NewPiece e")
    case True
    from step_NewPiece [OF ve True Cons.prems(2), of bc] obtain s1 where
      a: "step bc e s = Inr s1" and b: "graph_ok s1" and c: "next_ref s1 = Suc (Suc (next_ref s))"
      and d: "current s1 = {next_ref s, Suc (next_ref s)}"
      by (elim exE conjE)
    from Cons.IH [OF ves b, of ] obtain s' where
      e: "exec bc es s1 = Inr s'" and f: "graph_ok s'" and g: "next_ref s' = next_ref s1 + 2 * calls es"
      and h: "made bc es s1 \<union> current s1 = current s1 \<union> {next_ref s1..<next_ref s'}"
      by (elim exE conjE)
    have x: "exec bc (e # es) s = Inr s'" using a e by simp
    have n: "next_ref s' = next_ref s + 2 * calls (e # es)" using c g True by (simp add: calls_Cons)
    have "made bc (e # es) s = current s1 \<union> made bc es s1" using a by simp
    also have "\<dots> = current s1 \<union> {next_ref s1..<next_ref s'}" using h by blast
    also have "\<dots> = {next_ref s..<next_ref s'}"
      unfolding c d using g c by (intro interval_grow) simp
    finally have "made bc (e # es) s \<union> current s = current s \<union> {next_ref s..<next_ref s'}"
      by blast
    with x f n show ?thesis by blast
  next
    case False
    from step_other [OF ve False Cons.prems(2), of bc] obtain s1 where
      a: "step bc e s = Inr s1" and b: "graph_ok s1" and c: "next_ref s1 = next_ref s"
      and d: "current s1 = current s"
      by (elim exE conjE)
    from Cons.IH [OF ves b, of ] obtain s' where
      e: "exec bc es s1 = Inr s'" and f: "graph_ok s'" and g: "next_ref s' = next_ref s1 + 2 * calls es"
      and h: "made bc es s1 \<union> current s1 = current s1 \<union> {next_ref s1..<next_ref s'}"
      by (elim exE conjE)
    have x: "exec bc (e # es) s = Inr s'" using a e by simp
    have n: "next_ref s' = next_ref s + 2 * calls (e # es)" using c g False by (simp add: calls_Cons)
    have "made bc (e # es) s = current s1 \<union> made bc es s1" using a by simp
    then have "made bc (e # es) s \<union> current s = current s \<union> {next_ref s..<next_ref s'}"
      using h unfolding c d by blast
    with x f n show ?thesis by blast
  qed
qed

lemma attached_current:
  assumes "graph_ok s" "currentPiece s = Some cp"
  shows "attached s = {0, 1, 2, 3, Suc cp, cp}"
proof (intro set_eqI iffI)
  note g = graph_ok_SomeD [OF assms]
  fix r assume "r \<in> attached s"
  then show "r \<in> {0, 1, 2, 3, Suc cp, cp}"
  proof (induction rule: attached.induct)
    case root
    from g show ?case by simp
  next
    case (child p c)
    from child.IH consider "p = 0" | "p = 1" | "p = 2" | "p = 3" | "p = Suc cp" | "p = cp"
      by blast
    then show ?case
    proof cases
      case 1 with child.hyps(2) g show ?thesis by auto
    next
      case 2 with child.hyps(2) g show ?thesis by simp
    next
      case 3 with child.hyps(2) g show ?thesis by simp
    next
      case 4 with child.hyps(2) g show ?thesis by simp
    next
      case 5 with child.hyps(2) g show ?thesis by simp
    next
      case 6 with child.hyps(2) g show ?thesis by simp
    qed
  qed
next
  note g = graph_ok_SomeD [OF assms]
  fix r assume r: "r \<in> {0, 1, 2, 3, Suc cp, cp}"
  have z: "0 \<in> attached s" using attached.root [of s] g by simp
  have f: "c \<in> attached s" if "c \<in> set [1, 2, 3, Suc cp]" for c
    using attached.child [OF z, of c] that g by simp
  have "Suc cp \<in> attached s" by (rule f) simp
  from attached.child [OF this, of cp] g have "cp \<in> attached s" by simp
  with r z f show "r \<in> attached s" by auto
qed

lemma objects_generateFrom:
  "objects (generateFrom bc data s) (next_ref s) = Some (centered_piece bc data)"
  "objects (generateFrom bc data s) (Suc (next_ref s)) = Some new_Group"
  by (simp_all add: generateFrom_def centered_piece_def Let_def split_def split: option.splits)

lemma assembled_generateFrom: "assembled (generateFrom bc data s) = Some (centered_piece bc data)"
  by (simp add: assembled_def generateFrom_simple_fields objects_generateFrom)

lemma anchor_generateFrom: "anchor (generateFrom bc data s) = Some new_Group"
  by (simp add: anchor_def generateFrom_simple_fields objects_generateFrom)

lemma rotation_position_sub [simp]: "rotation (position_sub v g) = rotation g"
  by (cases g) simp

lemma kind_position_sub [simp]: "kind (position_sub v g) = kind g"
  by (cases g) simp

lemma rotation_add [simp]: "rotation (add g c) = rotation g"
  by (cases g) simp

lemma position_add [simp]: "position (add g c) = position g"
  by (cases g) simp

lemma rotation_fold_block_step: "rotation (fold (block_step occ m) data g) = rotation g"
  by (induction data arbitrary: g) (simp_all add: block_step_def Let_def split_def)

lemma position_fold_block_step: "position (fold (block_step occ m) data g) = position g"
  by (induction data arbitrary: g) (simp_all add: block_step_def Let_def split_def)

lemma rotation_fold_wall_step: "rotation (fold (wall_step occ m) data g) = rotation g"
  by (induction data arbitrary: g) (simp_all add: wall_step_def Let_def split_def)

lemma position_fold_wall_step: "position (fold (wall_step occ m) data g) = position g"
  by (induction data arbitrary: g) (simp_all add: wall_step_def Let_def split_def)

lemma rotation_centered_piece: "rotation (centered_piece bc data) = Euler 0 0 0"
  by (simp add: centered_piece_def Let_def addInternalWalls_def rotation_fold_wall_step
      rotation_fold_block_step new_Group_def)

lemma exec_append:
  "exec bc (evs @ evs') s = (case exec bc evs s of Inl err \<Rightarrow> Inl err | Inr s' \<Rightarrow> exec bc evs' s')"
  by (induction evs arbitrary: s) (simp_all split: sum.splits)

lemma attached_init: "attached init_scene = {0, 1, 2, 3}"
proof (intro set_eqI iffI)
  fix r assume "r \<in> attached init_scene"
  then show "r \<in> {0, 1, 2, 3}"
  proof (induction rule: attached.induct)
    case root
    show ?case by (simp add: init_scene_fields)
  next
    case (child p c)
    then show ?case by (auto simp: init_scene_fields split: if_splits)
  qed
next
  fix r :: nat assume r: "r \<in> {0, 1, 2, 3}"
  have z: "0 \<in> attached init_scene" using attached.root [of init_scene] by (simp add: init_scene_fields)
  have "c \<in> attached init_scene" if "c \<in> set [1, 2, 3]" for c
    using attached.child [OF z, of c] that by (simp add: init_scene_fields)
  with r z show "r \<in> attached init_scene" by auto
qed

lemma spin_example:
  "\<exists>s a. exec bc spin_and_drag init_scene = Inr s \<and> anchor s = Some a
     \<and> rotation a = Euler (2 / 5) (61 / 200) 0"
proof -
  obtain data where d: "pick 0 = Some data" using pick_valid [of 0] by auto
  let ?s1 = "generateFrom bc data init_scene"
  have p: "pivot ?s1 = Some 5" "objects ?s1 5 = Some new_Group"
    using generateFrom_simple_fields(2) [of bc data init_scene] objects_generateFrom(2) [of bc data init_scene]
    by (simp_all add: init_scene_fields eval_nat_numeral)
  have f: "isDragging ?s1 = False" "rotationPaused ?s1 = False" "resetVertical ?s1 = False"
    by (simp_all add: generateFrom_def Let_def split_def init_scene_def new_object_def add_ref_def remove_ref_def
        split: option.splits)
  show ?thesis
    using d p f
    by (simp add: spin_and_drag_def generateNewPiece_def animate_def onTouchStart_def onTouchMove_def
        Let_def anchor_def update_object_def new_Group_def pivot_rotation_x_def)
qed


text \<open>
  In every state the program reaches, the piece is a child of the pivot and not of the
  scene, so \<^verbatim>\<open>scene.remove(currentPiece)\<close> finds nothing to take out: the old piece leaves
  the scene together with its pivot.
\<close>

lemma scene_remove_piece_noop:
  assumes "graph_ok s" "currentPiece s = Some cp"
  shows "remove_ref (scene s) cp s = s"
proof -
  note g = graph_ok_SomeD [OF assms]
  from g have "remove1 cp (links s (scene s)) = links s (scene s)" by simp
  then show ?thesis by (simp add: remove_ref_def)
qed

text \<open>
  The centring: the new group is at the origin when its box is measured, and its position
  afterwards is the origin minus the centre that was returned.
\<close>

lemma centered_piece_position:
  "position (centered_piece bc data)
   = (let c = bc (addInternalWalls data (fold (block_step (occ3D data) piece_material) data new_Group)
                    piece_material)
      in Vector3 (0 - vx c) (0 - vy c) (0 - vz c))"
proof -
  let ?g = "addInternalWalls data (fold (block_step (occ3D data) piece_material) data new_Group) piece_material"
  have "position ?g = Vector3 0 0 0"
    by (simp add: addInternalWalls_def Let_def position_fold_wall_step position_fold_block_step
        new_Group_def)
  then show ?thesis
    by (cases ?g) (simp add: centered_piece_def Let_def)
qed

lemma card_interval: "card {4..<4 + 2 * n} = 2 * n"
  by simp

text \<open>
  C7.  After any well-formed run from \<^verbatim>\<open>init\<close> with \<open>N \<ge> 1\<close> calls of
  \<^verbatim>\<open>generateNewPiece\<close>, with frames, touches and pause clicks in between, the scene holds
  what \<^verbatim>\<open>init\<close> put there and exactly one more child, the pivot, whose only child is the
  current piece.  The run has made \<open>2 N\<close> pieces and pivots in all, and of these exactly
  the current piece and the current pivot hang in the scene graph: nothing of an earlier
  call is attached.
\<close>

theorem single_current_piece:
  assumes "list_all valid_event evs" and "1 \<le> calls evs"
  shows "\<exists>s cp pv. exec bc evs init_scene = Inr s
     \<and> currentPiece s = Some cp \<and> pivot s = Some pv \<and> cp \<noteq> pv
     \<and> links s (scene s) = links init_scene (scene init_scene) @ [pv]
     \<and> links s pv = [cp]
     \<and> attached s = attached init_scene \<union> {pv, cp}
     \<and> card (made bc evs init_scene) = 2 * calls evs
     \<and> attached s \<inter> made bc evs init_scene = {pv, cp}"
proof -
  from exec_run [OF assms(1) graph_ok_init, of bc] obtain s where
    e: "exec bc evs init_scene = Inr s" and g: "graph_ok s"
    and n: "next_ref s = next_ref init_scene + 2 * calls evs"
    and m: "made bc evs init_scene \<union> current init_scene
          = current init_scene \<union> {next_ref init_scene..<next_ref s}"
    by (elim exE conjE)
  from n assms(2) have n4: "next_ref s \<noteq> 4" by (simp add: init_scene_fields)
  with graph_ok_NoneD [OF g] obtain cp where c: "currentPiece s = Some cp"
    by (cases "currentPiece s") auto
  note d = graph_ok_SomeD [OF g c]
  have md: "made bc evs init_scene = {4..<Suc (Suc cp)}"
    using m d by (simp add: current_def init_scene_fields)
  have cd: "card (made bc evs init_scene) = 2 * calls evs"
    using n d md by (simp add: init_scene_fields)
  have a: "attached s = attached init_scene \<union> {Suc cp, cp}"
    unfolding attached_current [OF g c] attached_init by auto
  have i: "attached s \<inter> made bc evs init_scene = {Suc cp, cp}"
    unfolding attached_current [OF g c] md using d by auto
  have l: "links s (scene s) = links init_scene (scene init_scene) @ [Suc cp]"
    using d by (simp add: init_scene_fields)
  from e c d a cd i l show ?thesis by auto
qed

theorem single_current_piece_witness:
  "\<exists>s cp pv. exec (\<lambda>g. Vector3 0 0 0) two_calls init_scene = Inr s
     \<and> currentPiece s = Some cp \<and> pivot s = Some pv \<and> cp \<noteq> pv
     \<and> links s (scene s) = links init_scene (scene init_scene) @ [pv]
     \<and> links s pv = [cp]
     \<and> attached s = attached init_scene \<union> {pv, cp}
     \<and> card (made (\<lambda>g. Vector3 0 0 0) two_calls init_scene) = 2 * calls two_calls
     \<and> attached s \<inter> made (\<lambda>g. Vector3 0 0 0) two_calls init_scene = {pv, cp}"
  by (rule single_current_piece) (simp_all add: two_calls_def spin_and_drag_def calls_def)

text \<open>
  C8.  For a fixed piece \<open>data\<close>, the piece \<^verbatim>\<open>generateNewPiece\<close> assembles does not
  depend on the state it starts from: from any two states, and when called again on its
  own result, it assembles the same group, \<open>centered_piece boxCenter data\<close>, which fixes
  the faces of every cube, the bars and panels of every block, the partitions with their
  positions and the translation by the centre of the bounding box; the new pivot is the
  same too.  With the random number fixed, the calls from two states fail or succeed
  alike with the same piece.
\<close>

theorem generation_deterministic:
  "assembled (generateFrom bc data s1) = assembled (generateFrom bc data s2)
   \<and> assembled (generateFrom bc data (generateFrom bc data s1)) = assembled (generateFrom bc data s1)
   \<and> assembled (generateFrom bc data s1) = Some (centered_piece bc data)
   \<and> anchor (generateFrom bc data s1) = anchor (generateFrom bc data s2)
   \<and> map_sum id assembled (generateNewPiece bc rnd s1) = map_sum id assembled (generateNewPiece bc rnd s2)"
  by (simp add: assembled_generateFrom anchor_generateFrom generateNewPiece_def split: option.splits)

theorem generation_deterministic_witness:
  "assembled (generateFrom (\<lambda>g. Vector3 0 0 0) square init_scene)
     = assembled (generateFrom (\<lambda>g. Vector3 0 0 0) square (onTouchEnd init_scene))
   \<and> assembled (generateFrom (\<lambda>g. Vector3 0 0 0) square (generateFrom (\<lambda>g. Vector3 0 0 0) square init_scene))
     = assembled (generateFrom (\<lambda>g. Vector3 0 0 0) square init_scene)
   \<and> assembled (generateFrom (\<lambda>g. Vector3 0 0 0) square init_scene)
     = Some (centered_piece (\<lambda>g. Vector3 0 0 0) square)
   \<and> anchor (generateFrom (\<lambda>g. Vector3 0 0 0) square init_scene)
     = anchor (generateFrom (\<lambda>g. Vector3 0 0 0) square (onTouchEnd init_scene))
   \<and> map_sum id assembled (generateNewPiece (\<lambda>g. Vector3 0 0 0) 0 init_scene)
     = map_sum id assembled (generateNewPiece (\<lambda>g. Vector3 0 0 0) 0 (onTouchEnd init_scene))"
  by (rule generation_deterministic)

text \<open>
  C10.  After any well-formed run from \<^verbatim>\<open>init\<close>, a call of \<^verbatim>\<open>generateNewPiece\<close> succeeds
  and leaves as pivot an object that did not exist before the call, a new group at the
  origin with the identity rotation, different from the pivot before; its only child is
  the new piece, whose own rotation is the identity, and it is the pivot that hangs in
  the scene.  Whatever rotation frames and drags had given the earlier pivot is gone.
\<close>

theorem fresh_pivot_identity:
  assumes "list_all valid_event evs" and "0 \<le> rnd" and "rnd < 1"
  shows "\<exists>s s' cp pv piece. exec bc evs init_scene = Inr s
     \<and> generateNewPiece bc rnd s = Inr s'
     \<and> exec bc (evs @ [NewPiece rnd]) init_scene = Inr s'
     \<and> pivot s' = Some pv \<and> pv \<notin> dom (objects s) \<and> pivot s' \<noteq> pivot s
     \<and> anchor s' = Some new_Group
     \<and> position new_Group = Vector3 0 0 0 \<and> rotation new_Group = Euler 0 0 0
     \<and> currentPiece s' = Some cp \<and> links s' pv = [cp]
     \<and> objects s' cp = Some piece \<and> rotation piece = Euler 0 0 0
     \<and> links s' (scene s') = links init_scene (scene init_scene) @ [pv]"
proof -
  from exec_run [OF assms(1) graph_ok_init, of bc] obtain s where
    e: "exec bc evs init_scene = Inr s" and g: "graph_ok s"
    by (elim exE conjE)
  from pick_valid [OF assms(2) assms(3)] obtain data where d: "pick rnd = Some data" by blast
  let ?s' = "generateFrom bc data s"
  let ?pv = "Suc (next_ref s)"
  have c: "generateNewPiece bc rnd s = Inr ?s'" using d by (simp add: generateNewPiece_def)
  have x: "exec bc (evs @ [NewPiece rnd]) init_scene = Inr ?s'" using e c by (simp add: exec_append)
  have g': "graph_ok ?s'" using g by (rule generateFrom_graph_ok)
  have cp: "currentPiece ?s' = Some (next_ref s)" by (rule generateFrom_simple_fields)
  note k = graph_ok_SomeD [OF g' cp]
  have fresh: "?pv \<notin> dom (objects s)" using g by (auto simp: graph_ok_def)
  have old: "pivot s \<noteq> Some ?pv"
  proof (cases "currentPiece s")
    case None
    with graph_ok_NoneD [OF g None] show ?thesis by simp
  next
    case (Some c0)
    with graph_ok_SomeD [OF g Some] show ?thesis by simp
  qed
  have l: "links ?s' (scene ?s') = links init_scene (scene init_scene) @ [?pv]"
    using k by (simp add: init_scene_fields)
  have pv: "pivot ?s' = Some ?pv" using k by simp
  have lk: "links ?s' ?pv = [next_ref s]" using k by simp
  show ?thesis
  proof (rule exI [of _ s], rule exI [of _ ?s'], rule exI [of _ "next_ref s"],
      rule exI [of _ ?pv], rule exI [of _ "centered_piece bc data"], intro conjI)
    show "exec bc evs init_scene = Inr s" by (rule e)
    show "generateNewPiece bc rnd s = Inr ?s'" by (rule c)
    show "exec bc (evs @ [NewPiece rnd]) init_scene = Inr ?s'" by (rule x)
    show "pivot ?s' = Some ?pv" by (rule pv)
    show "?pv \<notin> dom (objects s)" by (rule fresh)
    show "pivot ?s' \<noteq> pivot s" using pv old by simp
    show "anchor ?s' = Some new_Group" by (rule anchor_generateFrom)
    show "position new_Group = Vector3 0 0 0" by (simp add: new_Group_def)
    show "rotation new_Group = Euler 0 0 0" by (simp add: new_Group_def)
    show "currentPiece ?s' = Some (next_ref s)" by (rule cp)
    show "links ?s' ?pv = [next_ref s]" by (rule lk)
    show "objects ?s' (next_ref s) = Some (centered_piece bc data)" by (rule objects_generateFrom)
    show "rotation (centered_piece bc data) = Euler 0 0 0" by (rule rotation_centered_piece)
    show "links ?s' (scene ?s') = links init_scene (scene init_scene) @ [?pv]" by (rule l)
  qed
qed

theorem fresh_pivot_identity_witness:
  "(\<exists>s a. exec (\<lambda>g. Vector3 0 0 0) spin_and_drag init_scene = Inr s \<and> anchor s = Some a
       \<and> rotation a = Euler (2 / 5) (61 / 200) 0)
   \<and> (\<exists>s s' cp pv piece. exec (\<lambda>g. Vector3 0 0 0) spin_and_drag init_scene = Inr s
     \<and> generateNewPiece (\<lambda>g. Vector3 0 0 0) (1 / 2) s = Inr s'
     \<and> exec (\<lambda>g. Vector3 0 0 0) (spin_and_drag @ [NewPiece (1 / 2)]) init_scene = Inr s'
     \<and> pivot s' = Some pv \<and> pv \<notin> dom (objects s) \<and> pivot s' \<noteq> pivot s
     \<and> anchor s' = Some new_Group
     \<and> position new_Group = Vector3 0 0 0 \<and> rotation new_Group = Euler 0 0 0
     \<and> currentPiece s' = Some cp \<and> links s' pv = [cp]
     \<and> objects s' cp = Some piece \<and> rotation piece = Euler 0 0 0
     \<and> links s' (scene s') = links init_scene (scene init_scene) @ [pv])"
proof (rule conjI)
  show "\<exists>s a. exec (\<lambda>g. Vector3 0 0 0) spin_and_drag init_scene = Inr s \<and> anchor s = Some a
       \<and> rotation a = Euler (2 / 5) (61 / 200) 0"
    by (rule spin_example)
next
  show "\<exists>s s' cp pv piece. exec (\<lambda>g. Vector3 0 0 0) spin_and_drag init_scene = Inr s
     \<and> generateNewPiece (\<lambda>g. Vector3 0 0 0) (1 / 2) s = Inr s'
     \<and> exec (\<lambda>g. Vector3 0 0 0) (spin_and_drag @ [NewPiece (1 / 2)]) init_scene = Inr s'
     \<and> pivot s' = Some pv \<and> pv \<notin> dom (objects s) \<and> pivot s' \<noteq> pivot s
     \<and> anchor s' = Some new_Group
     \<and> position new_Group = Vector3 0 0 0 \<and> rotation new_Group = Euler 0 0 0
     \<and> currentPiece s' = Some cp \<and> links s' pv = [cp]
     \<and> objects s' cp = Some piece \<and> rotation piece = Euler 0 0 0
     \<and> links s' (scene s') = links init_scene (scene init_scene) @ [pv]"
    by (rule fresh_pivot_identity) (simp_all add: spin_and_drag_def)
qed

subsection \<open>The bounding box and the centring\<close>

lemma points_position_sub:
  "points (position_sub v g) = map (\<lambda>q. Vector3 (vx q - vx v) (vy q - vy v) (vz q - vz v)) (points g)"
  by (cases g) (simp add: translate_def)

lemma Min_shift:
  fixes c :: real
  assumes "xs \<noteq> []"
  shows "Min (set (map (\<lambda>t. t - c) xs)) = Min (set xs) - c"
proof -
  have "mono (\<lambda>t::real. t - c)" by (simp add: mono_def)
  from mono_Min_commute [OF this, of "set xs"] assms show ?thesis by simp
qed

lemma Max_shift:
  fixes c :: real
  assumes "xs \<noteq> []"
  shows "Max (set (map (\<lambda>t. t - c) xs)) = Max (set xs) - c"
proof -
  have "mono (\<lambda>t::real. t - c)" by (simp add: mono_def)
  from mono_Max_commute [OF this, of "set xs"] assms show ?thesis by simp
qed

lemma box_centre_position_sub:
  assumes "points g \<noteq> []"
  shows "box_centre (position_sub v g)
   = Vector3 (vx (box_centre g) - vx v) (vy (box_centre g) - vy v) (vz (box_centre g) - vz v)"
proof -
  let ?ps = "points g"
  have x: "map vx (points (position_sub v g)) = map (\<lambda>t. t - vx v) (map vx ?ps)"
    and y: "map vy (points (position_sub v g)) = map (\<lambda>t. t - vy v) (map vy ?ps)"
    and z: "map vz (points (position_sub v g)) = map (\<lambda>t. t - vz v) (map vz ?ps)"
    by (simp_all add: points_position_sub comp_def)
  have n: "map vx ?ps \<noteq> []" "map vy ?ps \<noteq> []" "map vz ?ps \<noteq> []" "points (position_sub v g) \<noteq> []"
    using assms by (simp_all add: points_position_sub)
  have m: "Min (set (map vx (points (position_sub v g)))) = Min (set (map vx ?ps)) - vx v"
    "Min (set (map vy (points (position_sub v g)))) = Min (set (map vy ?ps)) - vy v"
    "Min (set (map vz (points (position_sub v g)))) = Min (set (map vz ?ps)) - vz v"
    "Max (set (map vx (points (position_sub v g)))) = Max (set (map vx ?ps)) - vx v"
    "Max (set (map vy (points (position_sub v g)))) = Max (set (map vy ?ps)) - vy v"
    "Max (set (map vz (points (position_sub v g)))) = Max (set (map vz ?ps)) - vz v"
    unfolding x y z
    by (rule Min_shift [OF n(1)] Min_shift [OF n(2)] Min_shift [OF n(3)]
        Max_shift [OF n(1)] Max_shift [OF n(2)] Max_shift [OF n(3)])+
  show ?thesis
    unfolding box_centre_def Let_def m
    using assms n(4) by (simp add: field_simps del: set_map)
qed

lemma box_centre_recentred: "box_centre (position_sub (box_centre g) g) = Vector3 0 0 0"
proof (cases "points g = []")
  case True
  then have "points (position_sub (box_centre g) g) = []" by (simp add: points_position_sub)
  then show ?thesis by (simp add: box_centre_def)
next
  case False
  then show ?thesis by (simp add: box_centre_position_sub)
qed

lemma box_centre_centered: "box_centre (centered_piece box_centre data) = Vector3 0 0 0"
  by (simp add: centered_piece_def Let_def box_centre_recentred)

lemma sums_3: "js_add 3 1 = 4" "js_sub 0 1 = - 1" "js_sub 1 1 = 0" "js_sub 2 1 = 1" "js_sub 3 1 = 2"
  by (simp_all add: js_add_def js_sub_def fl_int_exact)

lemma cubes_line: "cubes [(0, 0, Some 0), (1, 0, Some 0), (2, 0, Some 0), (3, 0, Some 0)]
   = {(0, 0, 0), (1, 0, 0), (2, 0, 0), (3, 0, 0)}"
  by (auto simp: cubes_def)

lemma trig: "sin (- pi / 2) = - 1" "cos (- pi / 2) = 0" "sin (- (pi / 2)) = - 1" "cos (- (pi / 2)) = 0"
  by (simp_all add: minus_divide_left [symmetric])

lemma line_centre:
  "box_centre (addInternalWalls [(0, 0, Some 0), (1, 0, Some 0), (2, 0, Some 0), (3, 0, Some 0)]
      (fold (block_step (occ3D [(0, 0, Some 0), (1, 0, Some 0), (2, 0, Some 0), (3, 0, Some 0)]) piece_material)
         [(0, 0, Some 0), (1, 0, Some 0), (2, 0, Some 0), (3, 0, Some 0)] new_Group) piece_material)
   = Vector3 (3 / 2) 0 0"
  by (simp add: box_centre_def Let_def addInternalWalls_def wall_step_def block_step_def
      exposedFacesFor_def key_mem_occ3D cubes_line small_sums sums_3 js_at_limit
      createBlock_def edge_bars_def addBar_def addFace_def face_panel_def wall_x_def wall_z_def
      new_Group_def new_Mesh_def corners_def rotate_def translate_def size_c_def t_c_def EPS_def
      Math_PI_def js_add_half_def fl_int_exact trig piece_material_def)

lemma points_child: "c \<in> set (children g) \<Longrightarrow> points c \<noteq> [] \<Longrightarrow> points g \<noteq> []"
  by (cases g) auto

lemma points_bar: "b \<in> set (bars m) \<Longrightarrow> points b \<noteq> []"
  by (auto simp: bars_explicit corners_def)

lemma points_createBlock: "points (createBlock fs m) \<noteq> []"
proof -
  have "bars m \<noteq> []" using length_bars [of m] by auto
  then have "hd (bars m) \<in> set (bars m)" by simp
  then have "hd (bars m) \<in> set (children (createBlock fs m))" "points (hd (bars m)) \<noteq> []"
    by (simp_all add: children_createBlock points_bar)
  then show ?thesis by (rule points_child)
qed

lemma points_position_set: "points (position_set x y z g) = [] \<longleftrightarrow> points g = []"
  by (cases g) simp

lemma children_block_step:
  "children (block_step occ m c g) =
     children g @ [case c of (x, z, ho) \<Rightarrow>
        position_set (of_int x) (of_int (height ho)) (of_int z)
          (createBlock (exposedFacesFor (x, z, height ho) occ) m)]"
  by (cases c) (simp add: block_step_def Let_def)

lemma children_fold_block_step:
  "children (fold (block_step occ m) data g) =
     children g @ map (\<lambda>c. case c of (x, z, ho) \<Rightarrow>
        position_set (of_int x) (of_int (height ho)) (of_int z)
          (createBlock (exposedFacesFor (x, z, height ho) occ) m)) data"
  by (induction data arbitrary: g) (simp_all add: children_block_step)

lemma points_blocks:
  assumes "data \<noteq> []"
  shows "points (addInternalWalls data (fold (block_step occ m) data new_Group) m') \<noteq> []"
proof -
  obtain c cs where d: "data = c # cs" using assms by (cases data) auto
  obtain x z ho where c: "c = (x, z, ho)" by (cases c)
  let ?f = "\<lambda>c. case c of (x, z, ho) \<Rightarrow>
        position_set (of_int x) (of_int (height ho)) (of_int z)
          (createBlock (exposedFacesFor (x, z, height ho) occ) m)"
  let ?g = "fold (block_step occ m) data new_Group"
  have ch: "set (children ?g) = ?f ` set data"
    unfolding children_fold_block_step by (simp add: new_Group_def)
  have "c \<in> set data" by (simp add: d)
  then have "?f c \<in> ?f ` set data" by (rule imageI)
  then have "?f c \<in> set (children ?g)" unfolding ch .
  then have "?f c \<in> set (children (addInternalWalls data ?g m'))"
    by (simp only: children_addInternalWalls set_append UnI1)
  moreover have "points (?f c) \<noteq> []"
    unfolding c by (simp add: points_position_set points_createBlock)
  ultimately show ?thesis by (rule points_child)
qed

lemma points_centered_piece: "data \<noteq> [] \<Longrightarrow> points (centered_piece bc data) \<noteq> []"
  by (simp add: centered_piece_def Let_def points_position_sub points_blocks)

lemma pieces_nonempty: "data \<in> set pieces \<Longrightarrow> data \<noteq> []"
  by (auto simp: pieces_def)

lemma line_translation: "position (centered_piece box_centre (pieces ! 0)) = Vector3 (- 3 / 2) 0 0"
proof -
  have p: "pieces ! 0 = [(0, 0, Some 0), (1, 0, Some 0), (2, 0, Some 0), (3, 0, Some 0)]"
    by (simp add: pieces_def)
  show ?thesis
    unfolding p centered_piece_position Let_def line_centre by simp
qed

text \<open>
  C6.  For every piece of the catalog, the group \<^verbatim>\<open>generateNewPiece\<close> assembles, after
  the translation by the centre of its bounding box, has a bounding box (it is not empty)
  whose centre is the origin, and that group is what the call leaves as the current piece.
  The coordinates of the box are real numbers here, so the centre is the origin exactly.
  The translation is not void: for the first piece of the catalog, the bar of four cubes,
  it moves the group by \<open>(-3/2, 0, 0)\<close>.
\<close>

theorem centered_at_origin:
  assumes "data \<in> set pieces"
  shows "box_centre (centered_piece box_centre data) = Vector3 0 0 0
   \<and> points (centered_piece box_centre data) \<noteq> []
   \<and> assembled (generateFrom box_centre data s) = Some (centered_piece box_centre data)
   \<and> position (centered_piece box_centre (pieces ! 0)) = Vector3 (- 3 / 2) 0 0"
  using box_centre_centered [of data] points_centered_piece [OF pieces_nonempty [OF assms], of box_centre]
    assembled_generateFrom [of box_centre data s] line_translation
  by simp

theorem centered_at_origin_witness:
  "box_centre (centered_piece box_centre (pieces ! 4)) = Vector3 0 0 0
   \<and> points (centered_piece box_centre (pieces ! 4)) \<noteq> []
   \<and> assembled (generateFrom box_centre (pieces ! 4) init_scene)
       = Some (centered_piece box_centre (pieces ! 4))
   \<and> position (centered_piece box_centre (pieces ! 0)) = Vector3 (- 3 / 2) 0 0"
  by (rule centered_at_origin) (simp add: pieces_def)

end
